theory Spec2Isabelle
  imports Complex_Main "HOL-Library.Sublist" "HOL-Library.Log_Nat"
begin

section \<open>Strings as Python uses them\<close>

text \<open>
  A Python \<open>str\<close> is modelled as a \<open>string\<close> (a list of 8-bit characters). The case
  mappings \<open>str.lower\<close> and \<open>str.upper\<close> are modelled on the ASCII letters and leave
  every other character unchanged; \<open>str.strip\<close> removes the ASCII white space characters
  that \<open>str.isspace\<close> accepts.
\<close>

definition lower_char :: "char \<Rightarrow> char" where
  "lower_char c =
     (case map_of (zip ''ABCDEFGHIJKLMNOPQRSTUVWXYZ'' ''abcdefghijklmnopqrstuvwxyz'') c of
        Some d \<Rightarrow> d
      | None \<Rightarrow> c)"

definition upper_char :: "char \<Rightarrow> char" where
  "upper_char c =
     (case map_of (zip ''abcdefghijklmnopqrstuvwxyz'' ''ABCDEFGHIJKLMNOPQRSTUVWXYZ'') c of
        Some d \<Rightarrow> d
      | None \<Rightarrow> c)"

definition str_lower :: "string \<Rightarrow> string" where
  "str_lower s = map lower_char s"

definition str_upper :: "string \<Rightarrow> string" where
  "str_upper s = map upper_char s"

definition is_space :: "char \<Rightarrow> bool" where
  "is_space c \<longleftrightarrow>
     c \<in> set [CHR '' '', CHR 0x09, CHR 0x0A, CHR 0x0B, CHR 0x0C, CHR 0x0D,
                CHR 0x1C, CHR 0x1D, CHR 0x1E, CHR 0x1F]"

definition str_strip :: "string \<Rightarrow> string" where
  "str_strip s = rev (dropWhile is_space (rev (dropWhile is_space s)))"

text \<open>Python's \<open>kw in s\<close> on strings: \<open>kw\<close> occurs in \<open>s\<close> as a contiguous run.\<close>

primrec str_in :: "string \<Rightarrow> string \<Rightarrow> bool" where
  "str_in kw [] = (kw = [])"
| "str_in kw (c # cs) = (prefix kw (c # cs) \<or> str_in kw cs)"

text \<open>
  The loop \<open>for kw in kws: if kw in s: return ...\<close>: does some keyword of the list
  occur in the string.
\<close>

primrec any_kw_in :: "string list \<Rightarrow> string \<Rightarrow> bool" where
  "any_kw_in [] s = False"
| "any_kw_in (kw # kws) s = (if str_in kw s then True else any_kw_in kws s)"


section \<open>The rule table of the data adapter\<close>

text \<open>
  One entry of \<open>tier_mapping\<close>: a dictionary whose keys \<open>"keywords"\<close> and \<open>"grades"\<close>
  may each be absent (\<open>tier_config.get(key, [])\<close>).
\<close>

record tier_config =
  cfg_keywords :: "string list option"
  cfg_grades :: "string list option"

type_synonym tier_mapping = "nat \<rightharpoonup> tier_config"

definition get_keywords :: "tier_config option \<Rightarrow> string list" where
  "get_keywords c =
     (case c of None \<Rightarrow> []
      | Some cfg \<Rightarrow> (case cfg_keywords cfg of None \<Rightarrow> [] | Some ks \<Rightarrow> ks))"

definition get_grades :: "tier_config option \<Rightarrow> string list" where
  "get_grades c =
     (case c of None \<Rightarrow> []
      | Some cfg \<Rightarrow> (case cfg_grades cfg of None \<Rightarrow> [] | Some gs \<Rightarrow> gs))"

definition DEFAULT_TIER_KEYWORDS :: tier_mapping where
  "DEFAULT_TIER_KEYWORDS = map_of
    [(1, \<lparr>cfg_keywords = Some [''board'', ''director'', ''non-executive'',
            ''independent director'', ''chairman'', ''chairperson''],
          cfg_grades = Some []\<rparr>),
     (2, \<lparr>cfg_keywords = Some [''ceo'', ''cfo'', ''cto'', ''coo'', ''cmo'', ''cpo'', ''chro'',
            ''cio'', ''chief'', ''managing director'', ''md'', ''president'',
            ''executive director'', ''ed'', ''svp'', ''senior vice president''],
          cfg_grades = Some [''E1'', ''E2'', ''L10'', ''L9'']\<rparr>),
     (3, \<lparr>cfg_keywords = Some [''vice president'', ''vp '', ''avp'',
            ''associate vice president'', ''general manager'', ''gm'', ''senior director'',
            ''head of'', ''principal'', ''evp''],
          cfg_grades = Some [''E3'', ''E4'', ''L8'', ''L7'', ''M5'', ''M4'']\<rparr>),
     (4, \<lparr>cfg_keywords = Some [''director'', ''senior manager'', ''manager'',
            ''associate director'', ''program manager'', ''delivery manager'',
            ''project manager''],
          cfg_grades = Some [''M3'', ''M2'', ''L6'', ''L5'']\<rparr>),
     (5, \<lparr>cfg_keywords = Some [''lead'', ''team lead'', ''tech lead'', ''senior consultant'',
            ''senior analyst'', ''senior engineer'', ''senior developer'',
            ''senior associate'', ''supervisor'', ''assistant manager''],
          cfg_grades = Some [''M1'', ''L4'', ''L3'', ''A4'', ''A3'']\<rparr>),
     (6, \<lparr>cfg_keywords = Some [''analyst'', ''associate'', ''engineer'', ''developer'',
            ''consultant'', ''executive'', ''trainee'', ''intern'', ''graduate'', ''fresher''],
          cfg_grades = Some [''A2'', ''A1'', ''L2'', ''L1'', ''T1'', ''T2'']\<rparr>)]"


section \<open>Tier classification of the data adapter\<close>

text \<open>
  The test one tier applies inside \<open>DataAdapter.classify_tier\<close>: first the keywords
  against the lower-cased title, then the upper-cased grade against the grade codes.
\<close>

definition tier_hit :: "tier_mapping \<Rightarrow> string \<Rightarrow> string \<Rightarrow> nat \<Rightarrow> bool" where
  "tier_hit tm title_lower grade_upper tier =
     (if any_kw_in (get_keywords (tm tier)) title_lower then True
      else grade_upper \<in> set (get_grades (tm tier)))"

text \<open>The loop \<open>for tier in range(1, 7)\<close>, returning at the first tier that hits.\<close>

primrec classify_loop :: "tier_mapping \<Rightarrow> string \<Rightarrow> string \<Rightarrow> nat list \<Rightarrow> nat" where
  "classify_loop tm title_lower grade_upper [] = 0"
| "classify_loop tm title_lower grade_upper (tier # tiers) =
     (if tier_hit tm title_lower grade_upper tier then tier
      else classify_loop tm title_lower grade_upper tiers)"

definition classify_tier :: "tier_mapping \<Rightarrow> string \<Rightarrow> string \<Rightarrow> nat" where
  "classify_tier tm title grade =
     classify_loop tm (str_lower title) (str_upper grade) [1, 2, 3, 4, 5, 6]"


section \<open>Title classification of the profile collector\<close>

definition tier_1 :: "string list" where
  "tier_1 = [''independent director'', ''non-executive director'', ''board member'',
             ''board of director'', '' chairman '', ''chairperson'', ''chairwoman'']"

definition tier_2 :: "string list" where
  "tier_2 = [''chief executive'', ''chief financial'', ''chief technology'',
             ''chief operating'', ''chief marketing'', ''chief information'',
             ''chief human'', ''chief people'', ''chief product'', ''chief revenue'',
             '' ceo '', '' cfo '', '' cto '', '' coo '', '' cmo '', '' cio '', '' chro '',
             '' cpo '', ''managing director'', '' president '', '' founder'', ''co-founder'']"

definition tier_3 :: "string list" where
  "tier_3 = [''executive vice president'', ''senior vice president'', ''vice president'',
             '' evp '', '' svp '', '' vp '', '' vp,'', '',vp '', ''vp-'', ''general manager'',
             ''global head'', ''country head'', ''regional head'', ''business head'',
             '' head of '', '' partner '']"

definition tier_4 :: "string list" where
  "tier_4 = [''senior director'', ''associate director'', '' director '', '' director,'',
             ''senior manager'', ''program manager'', ''project manager'', ''product manager'',
             ''delivery manager'', ''engagement manager'', ''engineering manager'',
             '' manager '']"

definition tier_5 :: "string list" where
  "tier_5 = [''team lead'', ''tech lead'', ''lead engineer'', ''lead developer'',
             ''lead analyst'', '' supervisor '', ''senior consultant'', ''senior analyst'',
             ''senior engineer'', ''senior developer'', ''senior associate'',
             ''senior specialist'', ''senior software engineer'',
             ''senior software developer'', '' principal '', '' lead '', '' staff engineer'',
             '' staff developer'', ''senior '']"

definition tier_6 :: "string list" where
  "tier_6 = ['' analyst '', '' associate '', '' consultant '', '' engineer '',
             '' developer '', '' executive '', '' trainee '', '' intern '', '' fresher '',
             '' graduate '', '' specialist '']"

text \<open>The title as \<open>classify_title\<close> searches it: lower-cased, one space on each side.\<close>

definition pad_title :: "string \<Rightarrow> string" where
  "pad_title title = '' '' @ str_lower title @ '' ''"

definition classify_title :: "string \<Rightarrow> nat" where
  "classify_title title =
     (if title = [] then 0
      else if any_kw_in tier_1 (pad_title title) then 1
      else if any_kw_in tier_2 (pad_title title) then 2
      else if any_kw_in tier_3 (pad_title title) then 3
      else if any_kw_in tier_4 (pad_title title) then 4
      else if any_kw_in tier_5 (pad_title title) then 5
      else if any_kw_in tier_6 (pad_title title) then 6
      else 0)"


section \<open>Gender from an explicit token\<close>

text \<open>\<open>DataAdapter.normalize_gender\<close>: trimmed, upper-cased, matched against fixed lists.\<close>

definition normalize_gender :: "string \<Rightarrow> string" where
  "normalize_gender val =
     (if val = [] then ''O''
      else let v = str_upper (str_strip val) in
        if v \<in> set [''M'', ''MALE'', ''1'', ''MAN'', ''HE''] then ''M''
        else if v \<in> set [''F'', ''FEMALE'', ''2'', ''WOMAN'', ''SHE''] then ''F''
        else ''O'')"

text \<open>
  \<open>CSVAdapter._map_gender\<close>: trimmed only, matched against the lists that the
  configuration holds under the keys \<open>"male"\<close> and \<open>"female"\<close> (an absent key is the
  empty list).
\<close>

type_synonym gender_values = "string \<rightharpoonup> string list"

definition gv_get :: "gender_values \<Rightarrow> string \<Rightarrow> string list" where
  "gv_get gv k = (case gv k of None \<Rightarrow> [] | Some xs \<Rightarrow> xs)"

definition map_gender :: "gender_values \<Rightarrow> string \<Rightarrow> string" where
  "map_gender gv val =
     (let v = str_strip val in
        if v \<in> set (gv_get gv ''male'') then ''M''
        else if v \<in> set (gv_get gv ''female'') then ''F''
        else ''O'')"

definition default_gender_values :: gender_values where
  "default_gender_values = map_of
     [(''male'', [''M'', ''Male'', ''MALE'', ''1'', ''Man'']),
      (''female'', [''F'', ''Female'', ''FEMALE'', ''2'', ''Woman''])]"

definition default_active_values :: "string list" where
  "default_active_values = [''Active'', ''ACTIVE'', ''1'', ''Y'', ''Yes'', ''TRUE'', ''Current'']"


section \<open>Gender estimated from a first name\<close>

definition INDIAN_NAMES_GENDER :: "(string \<times> string) list" where
  "INDIAN_NAMES_GENDER =
    [(''priya'', ''F''), (''neha'', ''F''), (''pooja'', ''F''), (''anjali'', ''F''),
     (''divya'', ''F''), (''swati'', ''F''), (''kavita'', ''F''), (''sunita'', ''F''),
     (''meera'', ''F''), (''anita'', ''F''), (''deepika'', ''F''), (''shreya'', ''F''),
     (''nisha'', ''F''), (''rekha'', ''F''), (''geeta'', ''F''), (''shalini'', ''F''),
     (''preeti'', ''F''), (''manisha'', ''F''), (''rashmi'', ''F''), (''smita'', ''F''),
     (''archana'', ''F''), (''shweta'', ''F''), (''pallavi'', ''F''), (''jyoti'', ''F''),
     (''ritu'', ''F''), (''aarti'', ''F''), (''sneha'', ''F''), (''bhavna'', ''F''),
     (''garima'', ''F''), (''kriti'', ''F''), (''aditi'', ''F''), (''aishwarya'', ''F''),
     (''ananya'', ''F''), (''diya'', ''F''), (''isha'', ''F''), (''kiara'', ''F''),
     (''mira'', ''F''), (''nandini'', ''F''), (''riya'', ''F''), (''saanvi'', ''F''),
     (''tanvi'', ''F''), (''vedika'', ''F''), (''zara'', ''F''), (''anika'', ''F''),
     (''avni'', ''F''), (''rahul'', ''M''), (''amit'', ''M''), (''raj'', ''M''),
     (''suresh'', ''M''), (''rajesh'', ''M''), (''vijay'', ''M''), (''ajay'', ''M''),
     (''sanjay'', ''M''), (''deepak'', ''M''), (''manoj'', ''M''), (''arun'', ''M''),
     (''kumar'', ''M''), (''ravi'', ''M''), (''sandeep'', ''M''), (''vikram'', ''M''),
     (''ashok'', ''M''), (''ramesh'', ''M''), (''mukesh'', ''M''), (''dinesh'', ''M''),
     (''naresh'', ''M''), (''rohit'', ''M''), (''nikhil'', ''M''), (''varun'', ''M''),
     (''karan'', ''M''), (''arjun'', ''M''), (''aarav'', ''M''), (''advait'', ''M''),
     (''arnav'', ''M''), (''dev'', ''M''), (''harsh'', ''M''), (''ishaan'', ''M''),
     (''kabir'', ''M''), (''krishna'', ''M''), (''mohit'', ''M''), (''pranav'', ''M''),
     (''reyansh'', ''M''), (''siddharth'', ''M''), (''veer'', ''M''), (''yash'', ''M''),
     (''aditya'', ''M''), (''akash'', ''M''), (''ankit'', ''M''), (''gaurav'', ''M''),
     (''himanshu'', ''M''), (''manish'', ''M'')]"

definition female_endings :: "string list" where
  "female_endings = [''a'', ''i'', ''ee'', ''ti'', ''ni'', ''ya'', ''ka'', ''na'', ''ri'']"

definition male_endings :: "string list" where
  "male_endings = [''sh'', ''raj'', ''deep'', ''kumar'', ''esh'', ''an'', ''av'']"

text \<open>\<open>name.endswith(ending)\<close>.\<close>

definition ends_with :: "string \<Rightarrow> string \<Rightarrow> bool" where
  "ends_with name ending = prefix (rev ending) (rev name)"

text \<open>The loop over the female endings, each test guarded by \<open>len(name) > 3\<close>.\<close>

primrec female_loop :: "string list \<Rightarrow> string \<Rightarrow> bool" where
  "female_loop [] name = False"
| "female_loop (e # es) name =
     (if ends_with name e \<and> 3 < length name then True else female_loop es name)"

text \<open>The loop over the male endings, which has no length test.\<close>

primrec male_loop :: "string list \<Rightarrow> string \<Rightarrow> bool" where
  "male_loop [] name = False"
| "male_loop (e # es) name = (if ends_with name e then True else male_loop es name)"

definition estimate_gender :: "string \<Rightarrow> string" where
  "estimate_gender first_name =
     (if first_name = [] then ''U''
      else let name = str_strip (str_lower first_name) in
        case map_of INDIAN_NAMES_GENDER name of
          Some g \<Rightarrow> g
        | None \<Rightarrow>
            if female_loop female_endings name then ''F''
            else if male_loop male_endings name then ''M''
            else ''U'')"


section \<open>Record normalization of the CSV adapter\<close>

record StandardEmployee =
  gender :: string
  tier :: nat
  is_active :: bool
  tenure_band :: "string option"
  department_type :: "string option"

record csv_config =
  tier_mapping_of :: tier_mapping
  field_mapping :: "string \<rightharpoonup> string"
  gender_values_of :: gender_values
  active_values :: "string list"

text \<open>
  A cell of the data frame that \<open>connect\<close> has loaded. Every row of a frame carries
  every column of the frame; where the file has no value, the cell is the float NaN. A
  cell that has a value is given by the string that \<open>str\<close> makes of it.
\<close>

datatype cell = NaN | Text string

primrec py_str :: "cell \<Rightarrow> string" where
  "py_str NaN = ''nan''"
| "py_str (Text s) = s"

type_synonym row = "string \<rightharpoonup> cell"

text \<open>
  \<open>field_mapping.get(key)\<close> followed by the truth test \<open>if col\<close>: an absent key and an
  empty column name both count as unmapped.
\<close>

definition mapped_col :: "csv_config \<Rightarrow> string \<Rightarrow> string option" where
  "mapped_col cfg k =
     (case field_mapping cfg k of
        None \<Rightarrow> None
      | Some c \<Rightarrow> if c = [] then None else Some c)"

text \<open>
  \<open>str(row.get(col, ""))\<close>: a column that the frame does not have reads as the empty
  string, a cell as what \<open>str\<close> makes of it.
\<close>

definition row_get :: "row \<Rightarrow> string \<Rightarrow> string" where
  "row_get r c = (case r c of None \<Rightarrow> [] | Some v \<Rightarrow> py_str v)"

definition field_of :: "csv_config \<Rightarrow> row \<Rightarrow> string \<Rightarrow> string" where
  "field_of cfg r k = (case mapped_col cfg k of None \<Rightarrow> [] | Some c \<Rightarrow> row_get r c)"

text \<open>The body of the loop of \<open>CSVAdapter.fetch_employees\<close> for one row.\<close>

definition normalize_row :: "csv_config \<Rightarrow> row \<Rightarrow> StandardEmployee option" where
  "normalize_row cfg r =
     (let g = map_gender (gender_values_of cfg) (field_of cfg r ''gender'');
          t = classify_tier (tier_mapping_of cfg) (field_of cfg r ''title'')
                (field_of cfg r ''grade'');
          act = (case mapped_col cfg ''status'' of
                   None \<Rightarrow> True
                 | Some c \<Rightarrow> row_get r c \<in> set (active_values cfg));
          dept = (case mapped_col cfg ''department'' of
                    None \<Rightarrow> None
                  | Some c \<Rightarrow> Some (row_get r c))
      in if 0 < t
         then Some \<lparr>gender = g, tier = t, is_active = act, tenure_band = None,
                    department_type = dept\<rparr>
         else None)"

primrec fetch_loop :: "csv_config \<Rightarrow> row list \<Rightarrow> StandardEmployee list" where
  "fetch_loop cfg [] = []"
| "fetch_loop cfg (r # rs) =
     (case normalize_row cfg r of
        None \<Rightarrow> fetch_loop cfg rs
      | Some e \<Rightarrow> e # fetch_loop cfg rs)"

text \<open>\<open>fetch_employees\<close>; the data frame is \<open>None\<close> until \<open>connect\<close> has loaded a file.\<close>

definition fetch_employees :: "csv_config \<Rightarrow> row list option \<Rightarrow> StandardEmployee list" where
  "fetch_employees cfg df = (case df of None \<Rightarrow> [] | Some rows \<Rightarrow> fetch_loop cfg rows)"

definition default_config :: "(string \<rightharpoonup> string) \<Rightarrow> csv_config" where
  "default_config fm =
     \<lparr>tier_mapping_of = DEFAULT_TIER_KEYWORDS, field_mapping = fm,
      gender_values_of = default_gender_values, active_values = default_active_values\<rparr>"


section \<open>Aggregate counts of the profile collector\<close>

record AggregateCount =
  male :: int
  female :: int
  unknown :: int

definition total :: "AggregateCount \<Rightarrow> int" where
  "total b = male b + female b + unknown b"

text \<open>
  Python's floats are IEEE 754 doubles. A finite double is modelled by its exact value,
  a rational number (the two zeros are not distinguished); the infinities are values of
  their own. \<open>round_half_even\<close> is rounding to the nearest integer, a tie going to the
  even one.
\<close>

definition round_half_even :: "rat \<Rightarrow> int" where
  "round_half_even q =
     (let fl = \<lfloor>q\<rfloor>; d = q - of_int fl in
        if d < 1 / 2 then fl
        else if 1 / 2 < d then fl + 1
        else if even fl then fl else fl + 1)"

text \<open>The exponent \<open>e\<close> with \<open>2^e \<le> x < 2^(e+1)\<close>, for a positive \<open>x\<close>.\<close>

definition floor_log2 :: "rat \<Rightarrow> int" where
  "floor_log2 x =
     (let (a, b) = quotient_of x; e0 = bitlen a - bitlen b in
        if 2 powi e0 \<le> x then e0 else e0 - 1)"

text \<open>
  The exponent of the unit in the last place of the doubles around \<open>x\<close>: 53 significant
  bits, and no exponent below that of the subnormal numbers.
\<close>

definition ulp_exp :: "rat \<Rightarrow> int" where
  "ulp_exp x = max (floor_log2 \<bar>x\<bar> - 52) (- 1074)"

text \<open>
  Rounding of an exact value to the nearest double, a tie going to the even significand,
  before the test for overflow.
\<close>

definition fl_round :: "rat \<Rightarrow> rat" where
  "fl_round x =
     (if x = 0 then 0
      else of_int (round_half_even (x / 2 powi ulp_exp x)) * 2 powi ulp_exp x)"

datatype pyfloat = Fin rat | PInf | NInf

datatype pyerror = ZeroDivisionError | OverflowError

text \<open>What \<open>female_pct\<close> returns: the integer \<open>0\<close> or a float.\<close>

datatype pynum = PyInt int | PyFloat pyfloat

text \<open>
  \<open>a / b\<close> on integers: it raises \<open>ZeroDivisionError\<close> for the divisor 0, gives the
  correctly rounded quotient otherwise, and raises \<open>OverflowError\<close> when that is too
  large for a float.
\<close>

definition int_truediv :: "int \<Rightarrow> int \<Rightarrow> pyerror + pyfloat" where
  "int_truediv a b =
     (if b = 0 then Inl ZeroDivisionError
      else let r = fl_round (of_int a / of_int b) in
        if 2 powi 1024 \<le> \<bar>r\<bar> then Inl OverflowError else Inr (Fin r))"

text \<open>
  \<open>x * n\<close> for a float \<open>x\<close> and an integer \<open>n > 0\<close> that a float holds exactly;
  overflow gives an infinity.
\<close>

definition float_mul_int :: "pyfloat \<Rightarrow> int \<Rightarrow> pyfloat" where
  "float_mul_int x n =
     (case x of
        Fin v \<Rightarrow>
          (let r = fl_round (v * of_int n) in
             if 2 powi 1024 \<le> r then PInf
             else if r \<le> - (2 powi 1024) then NInf
             else Fin r)
      | PInf \<Rightarrow> PInf
      | NInf \<Rightarrow> NInf)"

text \<open>
  \<open>round(x, 1)\<close>: the exact value of \<open>x\<close> is rounded to one decimal place, a tie going
  to the even digit, and the decimal is converted back to the nearest double; an infinity
  rounds to itself.
\<close>

definition float_round1 :: "pyfloat \<Rightarrow> pyfloat" where
  "float_round1 x =
     (case x of
        Fin v \<Rightarrow> Fin (fl_round (of_int (round_half_even (v * 10)) / 10))
      | PInf \<Rightarrow> PInf
      | NInf \<Rightarrow> NInf)"

definition female_pct :: "AggregateCount \<Rightarrow> pyerror + pynum" where
  "female_pct b =
     (let known = male b + female b in
        if 0 < known then
          (case int_truediv (female b) known of
             Inl e \<Rightarrow> Inl e
           | Inr q \<Rightarrow> Inr (PyFloat (float_round1 (float_mul_int q 100))))
        else Inr (PyInt 0))"

record CompanyResearchData =
  company_name :: string
  company_linkedin_url :: string
  data_collection_date :: string
  tier_1_board :: AggregateCount
  tier_2_csuite :: AggregateCount
  tier_3_senior :: AggregateCount
  tier_4_middle :: AggregateCount
  tier_5_junior :: AggregateCount
  tier_6_entry :: AggregateCount
  total_profiles_analyzed :: int
  methodology_notes :: string

definition empty_count :: AggregateCount where
  "empty_count = \<lparr>male = 0, female = 0, unknown = 0\<rparr>"

text \<open>The result object as \<open>search_company_employees\<close> creates it.\<close>

definition new_result :: "string \<Rightarrow> string \<Rightarrow> CompanyResearchData" where
  "new_result company now =
     \<lparr>company_name = company, company_linkedin_url = [], data_collection_date = now,
      tier_1_board = empty_count, tier_2_csuite = empty_count, tier_3_senior = empty_count,
      tier_4_middle = empty_count, tier_5_junior = empty_count, tier_6_entry = empty_count,
      total_profiles_analyzed = 0,
      methodology_notes = ''Automated collection from LinkedIn public profiles''\<rparr>"

text \<open>
  A profile card as the collector sees it: the text of its name element and of its
  subtitle element, \<open>None\<close> where \<open>find_element\<close> raises.
\<close>

record card =
  name_text :: "string option"
  title_text :: "string option"

text \<open>\<open>name_elem.text.split('\n')[0].strip()\<close>.\<close>

definition card_name :: "string \<Rightarrow> string" where
  "card_name txt = str_strip (takeWhile (\<lambda>c. c \<noteq> CHR 0x0A) txt)"

text \<open>\<open>name.split()[0] if name else ""\<close>, for a name that \<open>strip\<close> has already trimmed.\<close>

definition first_name_of :: "string \<Rightarrow> string" where
  "first_name_of name =
     (if name = [] then [] else takeWhile (\<lambda>c. \<not> is_space c) (dropWhile is_space name))"

text \<open>The three-way increment on the bucket that the tier selects.\<close>

definition bump :: "string \<Rightarrow> AggregateCount \<Rightarrow> AggregateCount" where
  "bump g b =
     (if g = ''M'' then b\<lparr>male := male b + 1\<rparr>
      else if g = ''F'' then b\<lparr>female := female b + 1\<rparr>
      else b\<lparr>unknown := unknown b + 1\<rparr>)"

definition update_counts :: "nat \<Rightarrow> string \<Rightarrow> CompanyResearchData \<Rightarrow> CompanyResearchData" where
  "update_counts t g res =
     (if t = 1 then res\<lparr>tier_1_board := bump g (tier_1_board res)\<rparr>
      else if t = 2 then res\<lparr>tier_2_csuite := bump g (tier_2_csuite res)\<rparr>
      else if t = 3 then res\<lparr>tier_3_senior := bump g (tier_3_senior res)\<rparr>
      else if t = 4 then res\<lparr>tier_4_middle := bump g (tier_4_middle res)\<rparr>
      else if t = 5 then res\<lparr>tier_5_junior := bump g (tier_5_junior res)\<rparr>
      else if t = 6 then res\<lparr>tier_6_entry := bump g (tier_6_entry res)\<rparr>
      else res)"

text \<open>
  The body of the loop over the cards. An exception inside it can only come from the two
  element look-ups, before anything is counted; the handler continues with the next card.
\<close>

definition process_card :: "CompanyResearchData \<Rightarrow> card \<Rightarrow> CompanyResearchData" where
  "process_card res c =
     (case name_text c of
        None \<Rightarrow> res
      | Some n \<Rightarrow>
          (case title_text c of
             None \<Rightarrow> res
           | Some ttl \<Rightarrow>
               (let g = estimate_gender (first_name_of (card_name n));
                    t = classify_title (str_strip ttl);
                    res' = update_counts t g res
                in res'\<lparr>total_profiles_analyzed := total_profiles_analyzed res' + 1\<rparr>)))"

primrec process_cards :: "CompanyResearchData \<Rightarrow> card list \<Rightarrow> CompanyResearchData" where
  "process_cards res [] = res"
| "process_cards res (c # cs) = process_cards (process_card res c) cs"

definition bucket_sum :: "CompanyResearchData \<Rightarrow> int" where
  "bucket_sum res =
     total (tier_1_board res) + total (tier_2_csuite res) + total (tier_3_senior res) +
     total (tier_4_middle res) + total (tier_5_junior res) + total (tier_6_entry res)"

text \<open>Whether a card is read without an exception, and the tier its title then gets.\<close>

definition card_ok :: "card \<Rightarrow> bool" where
  "card_ok c \<longleftrightarrow> name_text c \<noteq> None \<and> title_text c \<noteq> None"

definition card_tier :: "card \<Rightarrow> nat" where
  "card_tier c = (case title_text c of None \<Rightarrow> 0 | Some ttl \<Rightarrow> classify_title (str_strip ttl))"


section \<open>Auxiliary notions for stating the properties\<close>

text \<open>The keyword list that \<open>classify_title\<close> tests for a tier.\<close>

definition title_kws :: "nat \<Rightarrow> string list" where
  "title_kws t =
     (if t = 1 then tier_1 else if t = 2 then tier_2 else if t = 3 then tier_3
      else if t = 4 then tier_4 else if t = 5 then tier_5 else if t = 6 then tier_6
      else [])"

definition title_hit :: "string \<Rightarrow> nat \<Rightarrow> bool" where
  "title_hit title t = any_kw_in (title_kws t) (pad_title title)"

text \<open>A rule table that holds one keyword, at tier 1, and nothing else.\<close>

definition single_rule :: "string \<Rightarrow> tier_mapping" where
  "single_rule kw = map_of [(1, \<lparr>cfg_keywords = Some [kw], cfg_grades = None\<rparr>)]"


text \<open>A rule table with one keyword removed from the keyword list of one tier.\<close>

definition remove_kw :: "nat \<Rightarrow> string \<Rightarrow> tier_mapping \<Rightarrow> tier_mapping" where
  "remove_kw t kw tm =
     (case tm t of
        None \<Rightarrow> tm
      | Some cfg \<Rightarrow>
          tm(t \<mapsto> cfg\<lparr>cfg_keywords := map_option (filter (\<lambda>k. k \<noteq> kw)) (cfg_keywords cfg)\<rparr>))"

definition DEFAULT_WITHOUT_DIRECTOR_RULES :: tier_mapping where
  "DEFAULT_WITHOUT_DIRECTOR_RULES =
     remove_kw 4 ''associate director''
       (remove_kw 4 ''director'' (remove_kw 3 ''senior director'' DEFAULT_TIER_KEYWORDS))"

text \<open>
  The percentage in the words of the specification: the plain quotient, with no rounding,
  once in exact arithmetic and once in floating point.
\<close>

definition spec_female_pct :: "AggregateCount \<Rightarrow> rat" where
  "spec_female_pct b =
     (if male b + female b = 0 then 0
      else of_int (female b) / of_int (male b + female b) * 100)"

definition spec_female_pct_float :: "AggregateCount \<Rightarrow> pyerror + pynum" where
  "spec_female_pct_float b =
     (if male b + female b = 0 then Inr (PyInt 0)
      else case int_truediv (female b) (male b + female b) of
          Inl e \<Rightarrow> Inl e
        | Inr q \<Rightarrow> Inr (PyFloat (float_mul_int q 100)))"

text \<open>The dictionary \<open>tier_map\<close> of the collector: the bucket that belongs to a tier.\<close>

definition tier_map :: "CompanyResearchData \<Rightarrow> nat \<rightharpoonup> AggregateCount" where
  "tier_map res =
     map_of [(1, tier_1_board res), (2, tier_2_csuite res), (3, tier_3_senior res),
             (4, tier_4_middle res), (5, tier_5_junior res), (6, tier_6_entry res)]"

text \<open>The gender that the collector estimates for a card.\<close>

definition card_gender :: "card \<Rightarrow> string" where
  "card_gender c =
     (case name_text c of
        None \<Rightarrow> ''U''
      | Some n \<Rightarrow> estimate_gender (first_name_of (card_name n)))"


section \<open>Substring search and the tier loop\<close>

lemma str_in_iff: "str_in kw s \<longleftrightarrow> (\<exists>pre post. s = pre @ kw @ post)"
proof (induction s)
  case Nil
  show ?case by auto
next
  case (Cons c cs)
  have "str_in kw (c # cs) \<longleftrightarrow> prefix kw (c # cs) \<or> sublist kw cs"
    using Cons.IH by (simp add: sublist_def)
  also have "\<dots> \<longleftrightarrow> sublist kw (c # cs)"
    by (simp add: sublist_Cons_right)
  finally show ?case by (simp add: sublist_def)
qed


lemma classify_loop_first:
  "tier_hit tm s g t \<Longrightarrow> \<forall>u \<in> set pre. \<not> tier_hit tm s g u \<Longrightarrow>
     classify_loop tm s g (pre @ t # post) = t"
  by (induction pre) auto

lemma classify_loop_none:
  "\<forall>u \<in> set ts. \<not> tier_hit tm s g u \<Longrightarrow> classify_loop tm s g ts = 0"
  by (induction ts) auto

lemma classify_loop_result:
  "classify_loop tm s g ts = 0 \<or>
   (classify_loop tm s g ts \<in> set ts \<and> tier_hit tm s g (classify_loop tm s g ts))"
  by (induction ts) auto

lemma tiers_split:
  assumes "1 \<le> t" "t \<le> 6"
  shows "\<exists>pre post. [1, 2, 3, 4, 5, 6::nat] = pre @ t # post \<and> set pre = {u. 1 \<le> u \<and> u < t}"
proof -
  from assms have "t = 1 \<or> t = 2 \<or> t = 3 \<or> t = 4 \<or> t = 5 \<or> t = 6" by arith
  then show ?thesis
  proof (elim disjE)
    assume "t = 1"
    then show ?thesis by (intro exI[of _ "[]"] exI[of _ "[2, 3, 4, 5, 6]"]) auto
  next
    assume "t = 2"
    then show ?thesis by (intro exI[of _ "[1]"] exI[of _ "[3, 4, 5, 6]"]) auto
  next
    assume "t = 3"
    then show ?thesis by (intro exI[of _ "[1, 2]"] exI[of _ "[4, 5, 6]"]) auto
  next
    assume "t = 4"
    then show ?thesis by (intro exI[of _ "[1, 2, 3]"] exI[of _ "[5, 6]"]) auto
  next
    assume "t = 5"
    then show ?thesis by (intro exI[of _ "[1, 2, 3, 4]"] exI[of _ "[6]"]) auto
  next
    assume "t = 6"
    then show ?thesis by (intro exI[of _ "[1, 2, 3, 4, 5]"] exI[of _ "[]"]) auto
  qed
qed

lemma classify_tier_first:
  assumes "1 \<le> t" "t \<le> 6"
    and "tier_hit tm (str_lower title) (str_upper grade) t"
    and "\<forall>u. 1 \<le> u \<and> u < t \<longrightarrow> \<not> tier_hit tm (str_lower title) (str_upper grade) u"
  shows "classify_tier tm title grade = t"
proof -
  obtain pre post where sp: "[1, 2, 3, 4, 5, 6::nat] = pre @ t # post"
    and pre: "set pre = {u. 1 \<le> u \<and> u < t}"
    using tiers_split[OF assms(1,2)] by blast
  have "\<forall>u \<in> set pre. \<not> tier_hit tm (str_lower title) (str_upper grade) u"
    using assms(4) pre by auto
  from classify_loop_first[OF assms(3) this, of post] show ?thesis
    unfolding classify_tier_def sp .
qed

lemma classify_loop_zero:
  "0 \<notin> set ts \<Longrightarrow>
     classify_loop tm s g ts = 0 \<longleftrightarrow> (\<forall>u \<in> set ts. \<not> tier_hit tm s g u)"
  by (induction ts) auto

lemma set_tiers: "set [1, 2, 3, 4, 5, 6::nat] = {u. 1 \<le> u \<and> u \<le> 6}"
proof (intro set_eqI iffI)
  fix u :: nat
  assume "u \<in> set [1, 2, 3, 4, 5, 6]"
  then have "u = 1 \<or> u = 2 \<or> u = 3 \<or> u = 4 \<or> u = 5 \<or> u = 6" by simp
  then show "u \<in> {u. 1 \<le> u \<and> u \<le> 6}" by auto
next
  fix u :: nat
  assume "u \<in> {u. 1 \<le> u \<and> u \<le> 6}"
  then have "u = 1 \<or> u = 2 \<or> u = 3 \<or> u = 4 \<or> u = 5 \<or> u = 6" by auto
  then show "u \<in> set [1, 2, 3, 4, 5, 6]" by auto
qed

lemma classify_tier_range: "classify_tier tm title grade \<le> 6"
proof -
  have "classify_tier tm title grade = 0 \<or> classify_tier tm title grade \<in> set [1, 2, 3, 4, 5, 6]"
    using classify_loop_result[of tm "str_lower title" "str_upper grade" "[1, 2, 3, 4, 5, 6]"]
    unfolding classify_tier_def by blast
  then show ?thesis unfolding set_tiers by auto
qed

lemma classify_tier_zero_iff:
  "classify_tier tm title grade = 0 \<longleftrightarrow>
     (\<forall>u. 1 \<le> u \<and> u \<le> 6 \<longrightarrow> \<not> tier_hit tm (str_lower title) (str_upper grade) u)"
proof -
  have "0 \<notin> set [1, 2, 3, 4, 5, 6::nat]" by simp
  from classify_loop_zero[OF this, of tm "str_lower title" "str_upper grade"]
  show ?thesis unfolding classify_tier_def set_tiers by blast
qed

lemma classify_title_first:
  assumes "title \<noteq> []" "1 \<le> t" "t \<le> 6" "title_hit title t"
    and "\<forall>u. 1 \<le> u \<and> u < t \<longrightarrow> \<not> title_hit title u"
  shows "classify_title title = t"
proof -
  from assms(2,3) have cases: "t = 1 \<or> t = 2 \<or> t = 3 \<or> t = 4 \<or> t = 5 \<or> t = 6" by arith
  have n: "\<not> any_kw_in (title_kws u) (pad_title title)" if "1 \<le> u" "u < t" for u
    using assms(5) that by (simp add: title_hit_def)
  have k1: "\<not> any_kw_in tier_1 (pad_title title)" if "1 < t"
    using n[of 1] that by (simp add: title_kws_def)
  have k2: "\<not> any_kw_in tier_2 (pad_title title)" if "2 < t"
    using n[of 2] that by (simp add: title_kws_def)
  have k3: "\<not> any_kw_in tier_3 (pad_title title)" if "3 < t"
    using n[of 3] that by (simp add: title_kws_def)
  have k4: "\<not> any_kw_in tier_4 (pad_title title)" if "4 < t"
    using n[of 4] that by (simp add: title_kws_def)
  have k5: "\<not> any_kw_in tier_5 (pad_title title)" if "5 < t"
    using n[of 5] that by (simp add: title_kws_def)
  have h: "any_kw_in (title_kws t) (pad_title title)"
    using assms(4) by (simp add: title_hit_def)
  from cases show ?thesis
  proof (elim disjE)
    assume "t = 1"
    then show ?thesis using h assms(1) by (simp add: classify_title_def title_kws_def)
  next
    assume "t = 2"
    then show ?thesis using h assms(1) k1
      by (simp add: classify_title_def title_kws_def)
  next
    assume "t = 3"
    then show ?thesis using h assms(1) k1 k2
      by (simp add: classify_title_def title_kws_def)
  next
    assume "t = 4"
    then show ?thesis using h assms(1) k1 k2 k3
      by (simp add: classify_title_def title_kws_def)
  next
    assume "t = 5"
    then show ?thesis using h assms(1) k1 k2 k3 k4
      by (simp add: classify_title_def title_kws_def)
  next
    assume "t = 6"
    then show ?thesis using h assms(1) k1 k2 k3 k4 k5
      by (simp add: classify_title_def title_kws_def)
  qed
qed

lemma classify_title_range: "classify_title title \<le> 6"
  by (simp add: classify_title_def)


section \<open>The test vector of the classifiers\<close>

lemma tv_empty: "classify_tier DEFAULT_TIER_KEYWORDS '''' '''' = 0"
  by code_simp

lemma tv_ceo: "classify_tier DEFAULT_TIER_KEYWORDS ''Chief Executive Officer'' '''' = 2"
  by code_simp

lemma tv_independent: "classify_tier DEFAULT_TIER_KEYWORDS ''Independent Director'' '''' = 1"
  by code_simp

lemma tv_senior_manager: "classify_tier DEFAULT_TIER_KEYWORDS ''Senior Manager'' '''' = 4"
  by code_simp

lemma tv_title_empty: "classify_title '''' = 0"
  by code_simp

lemma tv_title_ceo: "classify_title ''Chief Executive Officer'' = 2"
  by code_simp

lemma tv_title_independent: "classify_title ''Independent Director'' = 1"
  by code_simp

lemma tv_title_senior_manager: "classify_title ''Senior Manager'' = 4"
  by code_simp

text \<open>
  C7. On the default rule table \<open>classify_tier\<close> gives tier 0 for the empty title and
  grade, tier 2 for "Chief Executive Officer", tier 1 for "Independent Director" and tier 4
  for "Senior Manager"; \<open>classify_title\<close> of the profile collector gives the same four
  tiers.
\<close>

theorem classify_test_vector:
  "classify_tier DEFAULT_TIER_KEYWORDS '''' '''' = 0 \<and>
   classify_tier DEFAULT_TIER_KEYWORDS ''Chief Executive Officer'' '''' = 2 \<and>
   classify_tier DEFAULT_TIER_KEYWORDS ''Independent Director'' '''' = 1 \<and>
   classify_tier DEFAULT_TIER_KEYWORDS ''Senior Manager'' '''' = 4 \<and>
   classify_title '''' = 0 \<and>
   classify_title ''Chief Executive Officer'' = 2 \<and>
   classify_title ''Independent Director'' = 1 \<and>
   classify_title ''Senior Manager'' = 4"
  using tv_empty tv_ceo tv_independent tv_senior_manager
    tv_title_empty tv_title_ceo tv_title_independent tv_title_senior_manager
  by blast


section \<open>Ascending tier priority\<close>

text \<open>
  C1. Both classifiers return the first tier, in the order 1 to 6, whose check succeeds.
  For \<open>classify_tier\<close> the check of a tier is \<open>tier_hit\<close>: a keyword of the tier occurs
  in the lower-cased title or, failing that, the upper-cased grade is one of the tier's
  grade codes. If the checks of tiers \<open>t1\<close> and \<open>t2\<close> with \<open>t1 \<le> t2\<close> both succeed and
  no tier before \<open>t1\<close> succeeds, the result is \<open>t1\<close>. For \<open>classify_title\<close> the same
  holds with the keyword lists of its six tiers, for a non-empty title.
\<close>

theorem ascending_tier_priority:
  "(1 \<le> t1 \<and> t1 \<le> t2 \<and> t2 \<le> 6 \<and>
      tier_hit tm (str_lower title) (str_upper grade) t1 \<and>
      tier_hit tm (str_lower title) (str_upper grade) t2 \<and>
      (\<forall>u. 1 \<le> u \<and> u < t1 \<longrightarrow> \<not> tier_hit tm (str_lower title) (str_upper grade) u)
    \<longrightarrow> classify_tier tm title grade = t1) \<and>
   (title \<noteq> [] \<and> 1 \<le> t1 \<and> t1 \<le> t2 \<and> t2 \<le> 6 \<and>
      title_hit title t1 \<and> title_hit title t2 \<and>
      (\<forall>u. 1 \<le> u \<and> u < t1 \<longrightarrow> \<not> title_hit title u)
    \<longrightarrow> classify_title title = t1)"
proof (intro conjI impI)
  assume h: "1 \<le> t1 \<and> t1 \<le> t2 \<and> t2 \<le> 6 \<and>
      tier_hit tm (str_lower title) (str_upper grade) t1 \<and>
      tier_hit tm (str_lower title) (str_upper grade) t2 \<and>
      (\<forall>u. 1 \<le> u \<and> u < t1 \<longrightarrow> \<not> tier_hit tm (str_lower title) (str_upper grade) u)"
  then have "t1 \<le> 6" by arith
  with h show "classify_tier tm title grade = t1"
    by (intro classify_tier_first) blast+
next
  assume h: "title \<noteq> [] \<and> 1 \<le> t1 \<and> t1 \<le> t2 \<and> t2 \<le> 6 \<and>
      title_hit title t1 \<and> title_hit title t2 \<and>
      (\<forall>u. 1 \<le> u \<and> u < t1 \<longrightarrow> \<not> title_hit title u)"
  then have "t1 \<le> 6" by arith
  with h show "classify_title title = t1"
    by (intro classify_title_first) blast+
qed

theorem ascending_tier_priority_witness:
  "classify_tier DEFAULT_TIER_KEYWORDS ''Senior Director'' '''' = 1 \<and>
   classify_title ''Senior Director'' = 4"
proof
  have a: "tier_hit DEFAULT_TIER_KEYWORDS (str_lower ''Senior Director'') (str_upper '''') 1"
    by code_simp
  have b: "tier_hit DEFAULT_TIER_KEYWORDS (str_lower ''Senior Director'') (str_upper '''') 4"
    by code_simp
  have c: "\<forall>u. 1 \<le> u \<and> u < (1::nat) \<longrightarrow>
             \<not> tier_hit DEFAULT_TIER_KEYWORDS (str_lower ''Senior Director'') (str_upper '''') u"
    by simp
  have d: "(1::nat) \<le> 1 \<and> (1::nat) \<le> 4 \<and> (4::nat) \<le> 6" by simp
  show "classify_tier DEFAULT_TIER_KEYWORDS ''Senior Director'' '''' = 1"
    using ascending_tier_priority
      [of 1 4 DEFAULT_TIER_KEYWORDS "''Senior Director''" "''''", THEN conjunct1] a b c d
    by blast
next
  have a: "title_hit ''Senior Director'' 4" by code_simp
  have b: "title_hit ''Senior Director'' 5" by code_simp
  have n1: "\<not> title_hit ''Senior Director'' 1" by code_simp
  have n2: "\<not> title_hit ''Senior Director'' 2" by code_simp
  have n3: "\<not> title_hit ''Senior Director'' 3" by code_simp
  have c: "\<forall>u. 1 \<le> u \<and> u < (4::nat) \<longrightarrow> \<not> title_hit ''Senior Director'' u"
  proof (intro allI impI)
    fix u :: nat
    assume "1 \<le> u \<and> u < 4"
    then have "u = 1 \<or> u = 2 \<or> u = 3" by arith
    then show "\<not> title_hit ''Senior Director'' u" using n1 n2 n3 by blast
  qed
  have d: "''Senior Director'' \<noteq> []" by simp
  have e: "(1::nat) \<le> 4 \<and> (4::nat) \<le> 5 \<and> (5::nat) \<le> 6" by simp
  show "classify_title ''Senior Director'' = 4"
    using ascending_tier_priority
      [of 4 5 DEFAULT_TIER_KEYWORDS "''Senior Director''" "''''", THEN conjunct2] a b c d e
    by blast
qed


section \<open>How a pattern is matched\<close>

lemma str_in_appendD: "str_in (a @ b) s \<Longrightarrow> str_in b s"
proof -
  assume "str_in (a @ b) s"
  then obtain pre post where "s = pre @ (a @ b) @ post"
    unfolding str_in_iff by blast
  then have "s = (pre @ a) @ b @ post" by simp
  then show "str_in b s" unfolding str_in_iff by blast
qed








section \<open>The bare keyword "director" of the default Board tier\<close>

lemma classify_loop_cong:
  "\<forall>t \<in> set ts. tier_hit tm s g t = tier_hit tm' s g t \<Longrightarrow>
     classify_loop tm s g ts = classify_loop tm' s g ts"
  by (induction ts) auto

lemma default_board_hit:
  "str_in ''director'' s \<Longrightarrow> tier_hit DEFAULT_TIER_KEYWORDS s g 1"
  by (simp add: tier_hit_def DEFAULT_TIER_KEYWORDS_def get_keywords_def)

lemma reduced_board_hit:
  "str_in ''director'' s \<Longrightarrow> tier_hit DEFAULT_WITHOUT_DIRECTOR_RULES s g 1"
  by (simp add: tier_hit_def DEFAULT_WITHOUT_DIRECTOR_RULES_def remove_kw_def
      DEFAULT_TIER_KEYWORDS_def get_keywords_def)

lemma senior_director_has_director: "str_in ''senior director'' s \<Longrightarrow> str_in ''director'' s"
  using str_in_appendD[of "''senior ''" "''director''" s] by simp

lemma associate_director_has_director:
  "str_in ''associate director'' s \<Longrightarrow> str_in ''director'' s"
  using str_in_appendD[of "''associate ''" "''director''" s] by simp

lemma reduced_table_hit:
  assumes "\<not> str_in ''director'' s" and "t \<in> set [1, 2, 3, 4, 5, 6]"
  shows "tier_hit DEFAULT_WITHOUT_DIRECTOR_RULES s g t = tier_hit DEFAULT_TIER_KEYWORDS s g t"
proof -
  have a: "\<not> str_in ''senior director'' s"
    using assms(1) senior_director_has_director by blast
  have b: "\<not> str_in ''associate director'' s"
    using assms(1) associate_director_has_director by blast
  from assms(2) have "t = 1 \<or> t = 2 \<or> t = 3 \<or> t = 4 \<or> t = 5 \<or> t = 6" by simp
  then show ?thesis
  proof (elim disjE)
    assume "t = 1"
    then show ?thesis
      by (simp add: tier_hit_def DEFAULT_WITHOUT_DIRECTOR_RULES_def remove_kw_def
          DEFAULT_TIER_KEYWORDS_def get_keywords_def get_grades_def)
  next
    assume "t = 2"
    then show ?thesis
      by (simp add: tier_hit_def DEFAULT_WITHOUT_DIRECTOR_RULES_def remove_kw_def
          DEFAULT_TIER_KEYWORDS_def get_keywords_def get_grades_def)
  next
    assume "t = 3"
    then show ?thesis using a
      by (simp add: tier_hit_def DEFAULT_WITHOUT_DIRECTOR_RULES_def remove_kw_def
          DEFAULT_TIER_KEYWORDS_def get_keywords_def get_grades_def)
  next
    assume "t = 4"
    then show ?thesis using assms(1) b
      by (simp add: tier_hit_def DEFAULT_WITHOUT_DIRECTOR_RULES_def remove_kw_def
          DEFAULT_TIER_KEYWORDS_def get_keywords_def get_grades_def)
  next
    assume "t = 5"
    then show ?thesis
      by (simp add: tier_hit_def DEFAULT_WITHOUT_DIRECTOR_RULES_def remove_kw_def
          DEFAULT_TIER_KEYWORDS_def get_keywords_def get_grades_def)
  next
    assume "t = 6"
    then show ?thesis
      by (simp add: tier_hit_def DEFAULT_WITHOUT_DIRECTOR_RULES_def remove_kw_def
          DEFAULT_TIER_KEYWORDS_def get_keywords_def get_grades_def)
  qed
qed

lemma director_gives_board:
  assumes "str_in ''director'' (str_lower title)"
  shows "classify_tier DEFAULT_TIER_KEYWORDS title grade = 1"
  by (rule classify_tier_first) (use assms default_board_hit in auto)

lemma director_gives_board_reduced:
  assumes "str_in ''director'' (str_lower title)"
  shows "classify_tier DEFAULT_WITHOUT_DIRECTOR_RULES title grade = 1"
  by (rule classify_tier_first) (use assms reduced_board_hit in auto)

text \<open>
  C10. On the default rule table every title whose lower-cased form contains "director"
  is classified as tier 1, whatever the grade. The Tier-3 keyword "senior director" and
  the Tier-4 keywords "director" and "associate director" never decide a result: the
  table without these three entries classifies every title and grade as the default
  table does.
\<close>

theorem director_always_board:
  "(str_in ''director'' (str_lower title) \<longrightarrow>
      classify_tier DEFAULT_TIER_KEYWORDS title grade = 1) \<and>
   classify_tier DEFAULT_WITHOUT_DIRECTOR_RULES title grade =
     classify_tier DEFAULT_TIER_KEYWORDS title grade"
proof
  show "str_in ''director'' (str_lower title) \<longrightarrow>
      classify_tier DEFAULT_TIER_KEYWORDS title grade = 1"
    using director_gives_board by blast
next
  show "classify_tier DEFAULT_WITHOUT_DIRECTOR_RULES title grade =
     classify_tier DEFAULT_TIER_KEYWORDS title grade"
  proof (cases "str_in ''director'' (str_lower title)")
    case True
    then show ?thesis
      using director_gives_board director_gives_board_reduced by simp
  next
    case False
    then have "\<forall>t \<in> set [1, 2, 3, 4, 5, 6].
        tier_hit DEFAULT_WITHOUT_DIRECTOR_RULES (str_lower title) (str_upper grade) t =
        tier_hit DEFAULT_TIER_KEYWORDS (str_lower title) (str_upper grade) t"
      using reduced_table_hit by blast
    then show ?thesis
      unfolding classify_tier_def by (rule classify_loop_cong)
  qed
qed

theorem director_always_board_witness:
  "classify_tier DEFAULT_TIER_KEYWORDS ''Associate Director'' ''M3'' = 1 \<and>
   classify_tier DEFAULT_TIER_KEYWORDS ''Senior Director'' '''' = 1 \<and>
   classify_tier DEFAULT_TIER_KEYWORDS ''Director of Engineering'' '''' = 1 \<and>
   classify_tier DEFAULT_WITHOUT_DIRECTOR_RULES ''Associate Director'' ''M3'' = 1"
proof -
  have 1: "str_in ''director'' (str_lower ''Associate Director'')" by code_simp
  have 2: "str_in ''director'' (str_lower ''Senior Director'')" by code_simp
  have 3: "str_in ''director'' (str_lower ''Director of Engineering'')" by code_simp
  show ?thesis
    using director_always_board [of "''Associate Director''" "''M3''"] 1
      director_always_board [of "''Senior Director''" "''''"] 2
      director_always_board [of "''Director of Engineering''" "''''"] 3
    by presburger
qed


section \<open>Gender tokens\<close>

lemma normalize_gender_cases:
  "normalize_gender v = ''M'' \<or> normalize_gender v = ''F'' \<or> normalize_gender v = ''O''"
  by (simp add: normalize_gender_def Let_def)

lemma str_strip_Nil: "str_strip [] = []"
  by (simp add: str_strip_def)

lemma normalize_gender_male:
  "normalize_gender v = ''M'' \<longleftrightarrow>
     str_upper (str_strip v) \<in> set [''M'', ''MALE'', ''1'', ''MAN'', ''HE'']"
  by (cases "v = []") (auto simp: normalize_gender_def Let_def str_strip_Nil str_upper_def)

lemma normalize_gender_female:
  "normalize_gender v = ''F'' \<longleftrightarrow>
     str_upper (str_strip v) \<in> set [''F'', ''FEMALE'', ''2'', ''WOMAN'', ''SHE'']"
  by (cases "v = []") (auto simp: normalize_gender_def Let_def str_strip_Nil str_upper_def)

lemma map_gender_cases:
  "map_gender gv v = ''M'' \<or> map_gender gv v = ''F'' \<or> map_gender gv v = ''O''"
  by (simp add: map_gender_def Let_def)

lemma map_gender_male:
  "map_gender gv v = ''M'' \<longleftrightarrow> str_strip v \<in> set (gv_get gv ''male'')"
  by (simp add: map_gender_def Let_def)

lemma map_gender_female:
  "map_gender gv v = ''F'' \<longleftrightarrow>
     str_strip v \<notin> set (gv_get gv ''male'') \<and> str_strip v \<in> set (gv_get gv ''female'')"
  by (simp add: map_gender_def Let_def)

text \<open>
  C4 (as the code has it). Both gender-token classifiers are total and return one of
  "M", "F" and "O". \<open>normalize_gender\<close> trims and upper-cases its input and matches the
  result against its two fixed token lists. \<open>_map_gender\<close>, the one the CSV adapter
  calls, only trims: the trimmed input is compared, case-sensitively, with the token
  lists of the configuration, the male list first. In both, an input that matches
  neither list, the empty string included, gives "O".
\<close>

theorem gender_token_total:
  "normalize_gender v \<in> {''M'', ''F'', ''O''} \<and>
   (normalize_gender v = ''M'' \<longleftrightarrow>
      str_upper (str_strip v) \<in> set [''M'', ''MALE'', ''1'', ''MAN'', ''HE'']) \<and>
   (normalize_gender v = ''F'' \<longleftrightarrow>
      str_upper (str_strip v) \<in> set [''F'', ''FEMALE'', ''2'', ''WOMAN'', ''SHE'']) \<and>
   normalize_gender [] = ''O'' \<and>
   map_gender gv v \<in> {''M'', ''F'', ''O''} \<and>
   (map_gender gv v = ''M'' \<longleftrightarrow> str_strip v \<in> set (gv_get gv ''male'')) \<and>
   (map_gender gv v = ''F'' \<longleftrightarrow>
      str_strip v \<notin> set (gv_get gv ''male'') \<and> str_strip v \<in> set (gv_get gv ''female'')) \<and>
   map_gender default_gender_values [] = ''O''"
proof (intro conjI)
  show "normalize_gender v \<in> {''M'', ''F'', ''O''}"
    using normalize_gender_cases[of v] by blast
  show "normalize_gender v = ''M'' \<longleftrightarrow>
      str_upper (str_strip v) \<in> set [''M'', ''MALE'', ''1'', ''MAN'', ''HE'']"
    by (rule normalize_gender_male)
  show "normalize_gender v = ''F'' \<longleftrightarrow>
      str_upper (str_strip v) \<in> set [''F'', ''FEMALE'', ''2'', ''WOMAN'', ''SHE'']"
    by (rule normalize_gender_female)
  show "normalize_gender [] = ''O''"
    by (simp add: normalize_gender_def)
  show "map_gender gv v \<in> {''M'', ''F'', ''O''}"
    using map_gender_cases[of gv v] by blast
  show "map_gender gv v = ''M'' \<longleftrightarrow> str_strip v \<in> set (gv_get gv ''male'')"
    by (rule map_gender_male)
  show "map_gender gv v = ''F'' \<longleftrightarrow>
      str_strip v \<notin> set (gv_get gv ''male'') \<and> str_strip v \<in> set (gv_get gv ''female'')"
    by (rule map_gender_female)
  show "map_gender default_gender_values [] = ''O''"
    by code_simp
qed

theorem gender_token_total_witness:
  "normalize_gender '' she '' = ''F'' \<and> map_gender default_gender_values '' Man '' = ''M''"
proof
  have "str_upper (str_strip '' she '') \<in> set [''F'', ''FEMALE'', ''2'', ''WOMAN'', ''SHE'']"
    by code_simp
  then show "normalize_gender '' she '' = ''F''"
    using gender_token_total [of "'' she ''" default_gender_values] by blast
next
  have "str_strip '' Man '' \<in> set (gv_get default_gender_values ''male'')"
    by code_simp
  then show "map_gender default_gender_values '' Man '' = ''M''"
    using gender_token_total [of "'' Man ''" default_gender_values] by blast
qed

text \<open>
  The claim fails on \<open>_map_gender\<close>: the token "male", trimmed and upper-cased, is the
  accepted male token "MALE", yet the result is "O"; likewise "MAN" is not recognised
  although "Man" is.
\<close>

theorem gender_token_case_counterexample:
  "str_upper (str_strip ''male'') \<in> set (gv_get default_gender_values ''male'') \<and>
   map_gender default_gender_values ''male'' = ''O'' \<and>
   normalize_gender ''male'' = ''M'' \<and>
   map_gender default_gender_values ''Man'' = ''M'' \<and>
   map_gender default_gender_values ''MAN'' = ''O''"
proof -
  have 1: "str_upper (str_strip ''male'') \<in> set (gv_get default_gender_values ''male'')"
    by code_simp
  have 2: "map_gender default_gender_values ''male'' = ''O''" by code_simp
  have 3: "normalize_gender ''male'' = ''M''" by code_simp
  have 4: "map_gender default_gender_values ''Man'' = ''M''" by code_simp
  have 5: "map_gender default_gender_values ''MAN'' = ''O''" by code_simp
  from 1 2 3 4 5 show ?thesis by blast
qed


section \<open>Gender from a first name\<close>

lemma ends_with_iff: "ends_with name e \<longleftrightarrow> suffix e name"
  by (simp add: ends_with_def suffix_to_prefix)

lemma female_loop_iff:
  "female_loop es name \<longleftrightarrow> (\<exists>e \<in> set es. suffix e name) \<and> 3 < length name"
  by (induction es) (auto simp: ends_with_iff)

lemma male_loop_iff: "male_loop es name \<longleftrightarrow> (\<exists>e \<in> set es. suffix e name)"
  by (induction es) (auto simp: ends_with_iff)

text \<open>
  C5. \<open>estimate_gender\<close> gives "U" for the empty string. Otherwise the name is
  lower-cased and trimmed; a name that the lexicon holds gets the lexicon's gender at
  once; otherwise the female endings are tried before the male endings. A female ending
  counts only for a name of more than three characters; the male endings carry no length
  threshold. A name that matches nothing gives "U".
\<close>

theorem estimate_gender_algorithm:
  "estimate_gender first_name =
     (if first_name = [] then ''U''
      else case map_of INDIAN_NAMES_GENDER (str_strip (str_lower first_name)) of
        Some g \<Rightarrow> g
      | None \<Rightarrow>
          if (\<exists>e \<in> set female_endings. suffix e (str_strip (str_lower first_name))) \<and>
             3 < length (str_strip (str_lower first_name))
          then ''F''
          else if (\<exists>e \<in> set male_endings. suffix e (str_strip (str_lower first_name)))
          then ''M''
          else ''U'')"
  unfolding estimate_gender_def Let_def female_loop_iff male_loop_iff ..

theorem estimate_gender_algorithm_witness:
  "estimate_gender '' Priya'' = ''F'' \<and> estimate_gender ''Rahul'' = ''M'' \<and>
   estimate_gender '''' = ''U'' \<and> estimate_gender ''Xyzzy'' = ''U'' \<and>
   estimate_gender ''Anaa'' = ''F'' \<and> estimate_gender ''Ana'' = ''U'' \<and>
   estimate_gender ''An'' = ''M''"
proof -
  have r: "(if x = [] then ''U''
      else case map_of INDIAN_NAMES_GENDER (str_strip (str_lower x)) of
        Some g \<Rightarrow> g
      | None \<Rightarrow>
          if (\<exists>e \<in> set female_endings. suffix e (str_strip (str_lower x))) \<and>
             3 < length (str_strip (str_lower x))
          then ''F''
          else if (\<exists>e \<in> set male_endings. suffix e (str_strip (str_lower x)))
          then ''M''
          else ''U'') = y \<Longrightarrow> estimate_gender x = y" for x y
    using estimate_gender_algorithm [of x] by simp
  have 1: "estimate_gender '' Priya'' = ''F''" by (rule r) code_simp
  have 2: "estimate_gender ''Rahul'' = ''M''" by (rule r) code_simp
  have 3: "estimate_gender '''' = ''U''" by (rule r) code_simp
  have 4: "estimate_gender ''Xyzzy'' = ''U''" by (rule r) code_simp
  have 5: "estimate_gender ''Anaa'' = ''F''" by (rule r) code_simp
  have 6: "estimate_gender ''Ana'' = ''U''" by (rule r) code_simp
  have 7: "estimate_gender ''An'' = ''M''" by (rule r) code_simp
  from 1 2 3 4 5 6 7 show ?thesis by blast
qed


section \<open>Records are dropped iff they are unclassifiable\<close>

lemma normalize_row_None:
  "normalize_row cfg r = None \<longleftrightarrow>
     classify_tier (tier_mapping_of cfg) (field_of cfg r ''title'') (field_of cfg r ''grade'') = 0"
  by (simp add: normalize_row_def Let_def)

lemma normalize_row_Some:
  assumes "normalize_row cfg r = Some e"
  shows "tier e =
      classify_tier (tier_mapping_of cfg) (field_of cfg r ''title'') (field_of cfg r ''grade'')"
    and "1 \<le> tier e" and "tier e \<le> 6"
proof -
  let ?t = "classify_tier (tier_mapping_of cfg) (field_of cfg r ''title'')
              (field_of cfg r ''grade'')"
  from assms have pos: "0 < ?t"
    by (simp add: normalize_row_def Let_def split: if_splits)
  from assms show eq: "tier e = ?t"
    by (auto simp: normalize_row_def Let_def split: if_splits)
  from pos eq show "1 \<le> tier e" by simp
  from eq classify_tier_range[of "tier_mapping_of cfg"] show "tier e \<le> 6" by simp
qed

lemma fetch_loop_tiers: "e \<in> set (fetch_loop cfg rows) \<Longrightarrow> 1 \<le> tier e \<and> tier e \<le> 6"
proof (induction rows)
  case Nil
  then show ?case by simp
next
  case (Cons r rows)
  show ?case
  proof (cases "normalize_row cfg r")
    case None
    with Cons show ?thesis by simp
  next
    case (Some e')
    with Cons normalize_row_Some(2,3)[OF Some] show ?thesis by auto
  qed
qed

lemma fetch_loop_length:
  "length (fetch_loop cfg rows) =
     length (filter (\<lambda>r. classify_tier (tier_mapping_of cfg) (field_of cfg r ''title'')
                          (field_of cfg r ''grade'') \<noteq> 0) rows)"
proof (induction rows)
  case Nil
  show ?case by simp
next
  case (Cons r rows)
  show ?case
  proof (cases "normalize_row cfg r")
    case None
    then show ?thesis using Cons normalize_row_None[of cfg r] by simp
  next
    case (Some e)
    then have "normalize_row cfg r \<noteq> None" by simp
    then show ?thesis using Some Cons normalize_row_None[of cfg r] by simp
  qed
qed

text \<open>
  C6. Normalizing a row yields no record iff the tier classification of the row's title
  and grade is 0. A record that is produced carries exactly the tier that the
  classification returned, which lies between 1 and 6. Hence every record that
  \<open>fetch_employees\<close> returns has a tier in 1..6, and it returns as many records as
  there are rows with a non-zero classification.
\<close>

theorem drop_iff_unclassifiable:
  "(normalize_row cfg r = None \<longleftrightarrow>
      classify_tier (tier_mapping_of cfg) (field_of cfg r ''title'')
        (field_of cfg r ''grade'') = 0) \<and>
   (\<forall>e. normalize_row cfg r = Some e \<longrightarrow>
      tier e = classify_tier (tier_mapping_of cfg) (field_of cfg r ''title'')
                 (field_of cfg r ''grade'') \<and> 1 \<le> tier e \<and> tier e \<le> 6) \<and>
   (\<forall>e \<in> set (fetch_employees cfg df). 1 \<le> tier e \<and> tier e \<le> 6) \<and>
   length (fetch_employees cfg (Some rows)) =
     length (filter (\<lambda>r. classify_tier (tier_mapping_of cfg) (field_of cfg r ''title'')
                          (field_of cfg r ''grade'') \<noteq> 0) rows)"
proof (intro conjI allI impI ballI)
  show "normalize_row cfg r = None \<longleftrightarrow>
      classify_tier (tier_mapping_of cfg) (field_of cfg r ''title'')
        (field_of cfg r ''grade'') = 0"
    by (rule normalize_row_None)
next
  fix e assume "normalize_row cfg r = Some e"
  then show "tier e = classify_tier (tier_mapping_of cfg) (field_of cfg r ''title'')
                 (field_of cfg r ''grade'')" "1 \<le> tier e" "tier e \<le> 6"
    by (rule normalize_row_Some)+
next
  fix e assume "e \<in> set (fetch_employees cfg df)"
  then have "1 \<le> tier e \<and> tier e \<le> 6"
    by (cases df) (auto simp: fetch_employees_def dest: fetch_loop_tiers)
  then show "1 \<le> tier e" "tier e \<le> 6" by simp_all
next
  show "length (fetch_employees cfg (Some rows)) =
     length (filter (\<lambda>r. classify_tier (tier_mapping_of cfg) (field_of cfg r ''title'')
                          (field_of cfg r ''grade'') \<noteq> 0) rows)"
    by (simp add: fetch_employees_def fetch_loop_length)
qed


theorem drop_iff_unclassifiable_witness:
  "normalize_row (default_config [''title'' \<mapsto> ''t'', ''gender'' \<mapsto> ''g''])
     [''t'' \<mapsto> Text ''Xyz Unknown Role'', ''g'' \<mapsto> Text ''M''] = None \<and>
   normalize_row (default_config [''title'' \<mapsto> ''t'', ''gender'' \<mapsto> ''g''])
     [''t'' \<mapsto> Text ''Software Engineer'', ''g'' \<mapsto> Text ''F''] =
     Some \<lparr>gender = ''F'', tier = 6, is_active = True, tenure_band = None,
           department_type = None\<rparr> \<and>
   (1::nat) \<le> tier \<lparr>gender = ''F'', tier = 6, is_active = True, tenure_band = None,
           department_type = None\<rparr> \<and>
   length (fetch_employees (default_config [''title'' \<mapsto> ''t'', ''gender'' \<mapsto> ''g''])
     (Some [[''t'' \<mapsto> Text ''Software Engineer'', ''g'' \<mapsto> Text ''F''],
            [''t'' \<mapsto> Text ''CEO'', ''g'' \<mapsto> Text ''M''],
            [''t'' \<mapsto> Text ''Xyz Unknown Role'', ''g'' \<mapsto> Text ''M'']])) = 2"
proof (intro conjI)
  let ?cfg = "default_config [''title'' \<mapsto> ''t'', ''gender'' \<mapsto> ''g'']"
  let ?r1 = "[''t'' \<mapsto> Text ''Software Engineer'', ''g'' \<mapsto> Text ''F'']"
  let ?r2 = "[''t'' \<mapsto> Text ''CEO'', ''g'' \<mapsto> Text ''M'']"
  let ?r3 = "[''t'' \<mapsto> Text ''Xyz Unknown Role'', ''g'' \<mapsto> Text ''M'']"
  let ?e1 = "\<lparr>gender = ''F'', tier = 6, is_active = True, tenure_band = None,
              department_type = None\<rparr>"
  have z: "classify_tier (tier_mapping_of ?cfg) (field_of ?cfg ?r3 ''title'')
             (field_of ?cfg ?r3 ''grade'') = 0"
    by code_simp
  show n3: "normalize_row ?cfg ?r3 = None"
    using drop_iff_unclassifiable [of ?cfg ?r3 None "[]"] z by blast
  show s1: "normalize_row ?cfg ?r1 = Some ?e1"
    by code_simp
  show "1 \<le> tier ?e1"
    using drop_iff_unclassifiable [of ?cfg ?r1 None "[]"] s1 by blast
  have "length (filter (\<lambda>r. classify_tier (tier_mapping_of ?cfg) (field_of ?cfg r ''title'')
                          (field_of ?cfg r ''grade'') \<noteq> 0) [?r1, ?r2, ?r3]) = 2"
    by code_simp
  then show "length (fetch_employees ?cfg (Some [?r1, ?r2, ?r3])) = 2"
    using drop_iff_unclassifiable [of ?cfg ?r1 None "[?r1, ?r2, ?r3]"] by presburger
qed


section \<open>Totals and percentage of a bucket\<close>

lemma round_half_even_close: "\<bar>of_int (round_half_even q) - q\<bar> \<le> 1 / 2"
proof -
  define d where "d = q - of_int \<lfloor>q\<rfloor>"
  have d0: "0 \<le> d" and d1: "d < 1"
    unfolding d_def by linarith+
  have q: "q = of_int \<lfloor>q\<rfloor> + d" by (simp add: d_def)
  consider "d < 1 / 2" | "1 / 2 < d" | "d = 1 / 2" by linarith
  then show ?thesis
  proof cases
    case 1
    then have "round_half_even q = \<lfloor>q\<rfloor>"
      by (simp add: round_half_even_def Let_def d_def)
    then show ?thesis using 1 d0 q by simp
  next
    case 2
    then have "round_half_even q = \<lfloor>q\<rfloor> + 1"
      by (simp add: round_half_even_def Let_def d_def)
    then show ?thesis using 2 d1 q by simp
  next
    case 3
    then have "round_half_even q = \<lfloor>q\<rfloor> \<or> round_half_even q = \<lfloor>q\<rfloor> + 1"
      by (simp add: round_half_even_def Let_def d_def)
    then show ?thesis using 3 q by auto
  qed
qed

lemma floor_log2_le:
  assumes "0 < x"
  shows "2 powi floor_log2 x \<le> x"
proof -
  obtain a b where q: "quotient_of x = (a, b)" by (cases "quotient_of x")
  have b: "0 < b" using q by (rule quotient_of_denom_pos)
  have x: "x = of_int a / of_int b" using q by (rule quotient_of_div)
  have a: "0 < a"
  proof (rule ccontr)
    assume "\<not> 0 < a"
    then have "of_int a \<le> (0::rat)" by simp
    then have "x \<le> 0" unfolding x using b by (simp add: divide_le_0_iff)
    with assms show False by simp
  qed
  define e0 where "e0 = bitlen a - bitlen b"
  show ?thesis
  proof (cases "2 powi e0 \<le> x")
    case True
    then show ?thesis by (simp add: floor_log2_def q e0_def)
  next
    case False
    then have fl: "floor_log2 x = e0 - 1" by (simp add: floor_log2_def q e0_def)
    have la: "1 \<le> bitlen a" using a bitlen_eq_zero_iff[of a] bitlen_nonneg[of a] by linarith
    have lb: "1 \<le> bitlen b" using b bitlen_eq_zero_iff[of b] bitlen_nonneg[of b] by linarith
    have "(2::int) ^ nat (bitlen a - 1) \<le> a" using bitlen_bounds[OF a] by simp
    then have "(of_int (2 ^ nat (bitlen a - 1)) :: rat) \<le> of_int a" by (simp only: of_int_le_iff)
    then have A: "(2::rat) powi (bitlen a - 1) \<le> of_int a"
      using la by (simp add: power_int_nonneg_exp)
    have "b < 2 ^ nat (bitlen b)" using bitlen_bounds[OF b] by simp
    then have "(of_int b :: rat) < of_int (2 ^ nat (bitlen b))" by (simp only: of_int_less_iff)
    then have B: "(of_int b :: rat) \<le> 2 powi bitlen b"
      using lb by (simp add: power_int_nonneg_exp)
    have "(2::rat) powi (bitlen a - 1) / 2 powi bitlen b \<le> of_int a / of_int b"
      using a b A B by (intro frac_le) simp_all
    moreover have "(2::rat) powi (bitlen a - 1) / 2 powi bitlen b = 2 powi (e0 - 1)"
      unfolding e0_def by (subst power_int_diff[symmetric]) (simp_all add: algebra_simps)
    ultimately have "(2::rat) powi (e0 - 1) \<le> x" unfolding x by simp
    then show ?thesis unfolding fl .
  qed
qed

lemma fl_round_err_ulp: "\<bar>fl_round x - x\<bar> \<le> 2 powi ulp_exp x / 2"
proof (cases "x = 0")
  case True
  then show ?thesis by (simp add: fl_round_def)
next
  case False
  define u :: rat where "u = 2 powi ulp_exp x"
  have u: "0 < u" unfolding u_def by simp
  have "fl_round x - x = (of_int (round_half_even (x / u)) - x / u) * u"
    using False u by (simp add: fl_round_def u_def[symmetric] algebra_simps)
  then have "\<bar>fl_round x - x\<bar> = \<bar>of_int (round_half_even (x / u)) - x / u\<bar> * u"
    using u by (simp add: abs_mult)
  also have "\<dots> \<le> (1 / 2) * u"
    using round_half_even_close[of "x / u"] u by (intro mult_right_mono) simp_all
  finally show ?thesis by (simp add: u_def)
qed

text \<open>The rounding error of a value of magnitude at most \<open>2^m\<close>, outside the subnormals.\<close>

lemma fl_round_err:
  assumes "\<bar>x\<bar> \<le> 2 powi m" and "- 1022 \<le> m"
  shows "\<bar>fl_round x - x\<bar> \<le> 2 powi (m - 53)"
proof (cases "x = 0")
  case True
  then show ?thesis by (simp add: fl_round_def)
next
  case False
  then have pos: "0 < \<bar>x\<bar>" by simp
  have e: "floor_log2 \<bar>x\<bar> \<le> m"
  proof (rule ccontr)
    assume "\<not> floor_log2 \<bar>x\<bar> \<le> m"
    then have "m < floor_log2 \<bar>x\<bar>" by simp
    then have "(2::rat) powi m < 2 powi floor_log2 \<bar>x\<bar>"
      by (intro power_int_strict_increasing) simp_all
    also have "\<dots> \<le> \<bar>x\<bar>" using pos by (rule floor_log2_le)
    finally show False using assms(1) by simp
  qed
  have "ulp_exp x \<le> m - 52" using e assms(2) by (simp add: ulp_exp_def)
  then have "(2::rat) powi ulp_exp x \<le> 2 powi (m - 52)"
    by (intro power_int_increasing) simp_all
  moreover have "(2::rat) powi (m - 52) / 2 = 2 powi (m - 53)"
    using power_int_diff[of "2::rat" "m - 52" 1] by simp
  ultimately have "(2::rat) powi ulp_exp x / 2 \<le> 2 powi (m - 53)"
    by (simp add: divide_right_mono)
  with fl_round_err_ulp[of x] show ?thesis by linarith
qed

lemma no_overflow: "\<bar>r\<bar> \<le> 256 \<Longrightarrow> \<not> 2 powi 1024 \<le> \<bar>r :: rat\<bar>"
proof -
  assume r: "\<bar>r\<bar> \<le> 256"
  have "(2::rat) powi 9 \<le> 2 powi 1024" by (intro power_int_increasing) simp_all
  then have "(512::rat) \<le> 2 powi 1024" by simp
  with r show ?thesis by linarith
qed

lemma truediv_no_zero_division:
  "b \<noteq> 0 \<Longrightarrow> int_truediv a b \<noteq> Inl ZeroDivisionError"
  by (simp add: int_truediv_def Let_def)

lemma female_pct_no_zero_division: "female_pct b \<noteq> Inl ZeroDivisionError"
proof (cases "0 < male b + female b")
  case False
  then show ?thesis by (simp add: female_pct_def Let_def)
next
  case True
  then have "int_truediv (female b) (male b + female b) \<noteq> Inl ZeroDivisionError"
    by (intro truediv_no_zero_division) simp
  with True show ?thesis
    by (auto simp: female_pct_def Let_def split: sum.split)
qed

lemma female_pct_value:
  assumes m: "0 \<le> male b" and f: "0 \<le> female b" and k: "0 < male b + female b"
  shows "\<exists>n v. female_pct b = Inr (PyFloat (Fin v)) \<and>
           v = fl_round (of_int n / 10) \<and>
           \<bar>of_int n / 10 - (of_int (female b) / of_int (male b + female b) * 100 :: rat)\<bar>
             \<le> 1 / 20 + 1 / 2 ^ 45 \<and>
           \<bar>v - of_int (female b) / of_int (male b + female b) * 100\<bar>
             \<le> 1 / 20 + 1 / 2 ^ 44"
proof -
  define d :: rat where "d = 2 powi (- 53)"
  have d: "d = 1 / 2 ^ 53" by (simp add: d_def power_int_minus_divide)
  have dpos: "0 < d" and dsmall: "d \<le> 1 / 1024" unfolding d by simp_all
  have p46: "(2::rat) powi (7 - 53) = 128 * d"
    unfolding d by (simp add: power_int_minus_divide)
  have p45: "(2::rat) powi (8 - 53) = 256 * d"
    unfolding d by (simp add: power_int_minus_divide)
  define q :: rat where "q = of_int (female b) / of_int (male b + female b)"
  have q0: "0 \<le> q" unfolding q_def using f k by simp
  have q1: "q \<le> 1" unfolding q_def using m f k by (simp add: divide_le_eq_1)
  define x1 where "x1 = fl_round q"
  have "\<bar>q\<bar> \<le> 2 powi 0" using q0 q1 by simp
  then have "\<bar>x1 - q\<bar> \<le> 2 powi (0 - 53)" unfolding x1_def by (rule fl_round_err) simp
  then have e1: "\<bar>x1 - q\<bar> \<le> d" by (simp add: d_def)
  have a1: "\<bar>x1\<bar> \<le> 1 + d" using e1 q0 q1 by linarith
  have div: "int_truediv (female b) (male b + female b) = Inr (Fin x1)"
  proof -
    have "\<bar>x1\<bar> \<le> 256" using a1 dsmall by linarith
    then have "\<not> 2 powi 1024 \<le> \<bar>x1\<bar>" by (rule no_overflow)
    then show ?thesis using k by (simp add: int_truediv_def Let_def x1_def q_def)
  qed
  define x2 where "x2 = fl_round (x1 * 100)"
  have ay: "\<bar>x1 * 100\<bar> \<le> 128" using a1 dsmall by (simp add: abs_mult) 
  then have "\<bar>x1 * 100\<bar> \<le> 2 powi 7" by simp
  then have "\<bar>x2 - x1 * 100\<bar> \<le> 2 powi (7 - 53)" unfolding x2_def by (rule fl_round_err) simp
  then have e2: "\<bar>x2 - x1 * 100\<bar> \<le> 128 * d" unfolding p46 .
  have e12: "\<bar>x2 - q * 100\<bar> \<le> 228 * d" using e1 e2 by linarith
  have a2: "\<bar>x2\<bar> \<le> 129" using e2 ay dsmall by linarith
  have mul: "float_mul_int (Fin x1) 100 = Fin x2"
  proof -
    have "\<bar>x2\<bar> \<le> 256" using a2 by linarith
    then have n: "\<not> 2 powi 1024 \<le> \<bar>x2\<bar>" by (rule no_overflow)
    then have "\<not> 2 powi 1024 \<le> x2" and "\<not> x2 \<le> - (2 powi 1024)" by linarith+
    then show ?thesis by (simp add: float_mul_int_def Let_def x2_def)
  qed
  define n where "n = round_half_even (x2 * 10)"
  define v where "v = fl_round (of_int n / 10)"
  have "\<bar>of_int n - x2 * 10\<bar> \<le> 1 / 2" unfolding n_def by (rule round_half_even_close)
  then have e3: "\<bar>of_int n / 10 - x2\<bar> \<le> 1 / 20" by linarith
  have a3: "\<bar>of_int n / 10 :: rat\<bar> \<le> 256" using e3 a2 by linarith
  then have "\<bar>of_int n / 10 :: rat\<bar> \<le> 2 powi 8" by simp
  then have "\<bar>v - of_int n / 10\<bar> \<le> 2 powi (8 - 53)" unfolding v_def by (rule fl_round_err) simp
  then have e4: "\<bar>v - of_int n / 10\<bar> \<le> 256 * d" unfolding p45 .
  have rnd: "float_round1 (Fin x2) = Fin v"
    by (simp add: float_round1_def v_def n_def)
  have res: "female_pct b = Inr (PyFloat (Fin v))"
    using k by (simp add: female_pct_def Let_def div mul rnd)
  have b1: "\<bar>of_int n / 10 - q * 100\<bar> \<le> 1 / 20 + 256 * d"
    using e3 e12 dpos by linarith
  have b2: "\<bar>v - q * 100\<bar> \<le> 1 / 20 + 512 * d"
    using e4 e3 e12 dpos by linarith
  have c1: "256 * d = 1 / 2 ^ 45" and c2: "512 * d = 1 / 2 ^ 44" unfolding d by simp_all
  show ?thesis
    using res b1 b2 unfolding c1 c2 q_def v_def by blast
qed

text \<open>
  C8 (as the code has it). The total of a bucket is the sum of its three counters. The
  division of \<open>female_pct\<close> is guarded: for no bucket does it raise
  \<open>ZeroDivisionError\<close>, and when male + female is not positive the result is the integer
  0. Otherwise the result is \<open>round(female / known * 100, 1)\<close> in floating point
  (for counters beyond the range of a float the division raises \<open>OverflowError\<close>). For
  counters that are not negative that is the double nearest to a whole number of tenths,
  and that number of tenths differs from the exact percentage
  female / (male + female) * 100 by at most 0.05, up to the rounding error of the float
  operations.
\<close>

theorem female_pct_rounded:
  "total b = male b + female b + unknown b \<and>
   female_pct b \<noteq> Inl ZeroDivisionError \<and>
   (male b + female b \<le> 0 \<longrightarrow> female_pct b = Inr (PyInt 0)) \<and>
   (0 < male b + female b \<longrightarrow>
      female_pct b =
        (case int_truediv (female b) (male b + female b) of
           Inl e \<Rightarrow> Inl e
         | Inr q \<Rightarrow> Inr (PyFloat (float_round1 (float_mul_int q 100))))) \<and>
   (0 \<le> male b \<and> 0 \<le> female b \<and> 0 < male b + female b \<longrightarrow>
      (\<exists>n v. female_pct b = Inr (PyFloat (Fin v)) \<and>
         v = fl_round (of_int n / 10) \<and>
         \<bar>of_int n / 10 - (of_int (female b) / of_int (male b + female b) * 100 :: rat)\<bar>
           \<le> 1 / 20 + 1 / 2 ^ 45 \<and>
         \<bar>v - of_int (female b) / of_int (male b + female b) * 100\<bar>
           \<le> 1 / 20 + 1 / 2 ^ 44))"
proof (intro conjI impI)
  show "total b = male b + female b + unknown b"
    by (simp add: total_def)
  show "female_pct b \<noteq> Inl ZeroDivisionError"
    by (rule female_pct_no_zero_division)
  show "female_pct b = Inr (PyInt 0)" if "male b + female b \<le> 0"
    using that by (simp add: female_pct_def Let_def)
  show "female_pct b =
        (case int_truediv (female b) (male b + female b) of
           Inl e \<Rightarrow> Inl e
         | Inr q \<Rightarrow> Inr (PyFloat (float_round1 (float_mul_int q 100))))"
    if "0 < male b + female b"
    using that by (simp add: female_pct_def Let_def)
  show "\<exists>n v. female_pct b = Inr (PyFloat (Fin v)) \<and>
         v = fl_round (of_int n / 10) \<and>
         \<bar>of_int n / 10 - (of_int (female b) / of_int (male b + female b) * 100 :: rat)\<bar>
           \<le> 1 / 20 + 1 / 2 ^ 45 \<and>
         \<bar>v - of_int (female b) / of_int (male b + female b) * 100\<bar>
           \<le> 1 / 20 + 1 / 2 ^ 44"
    if "0 \<le> male b \<and> 0 \<le> female b \<and> 0 < male b + female b"
    using that by (intro female_pct_value) simp_all
qed

theorem female_pct_rounded_witness:
  "female_pct \<lparr>male = 0, female = 0, unknown = 5\<rparr> = Inr (PyInt 0) \<and>
   total \<lparr>male = 0, female = 0, unknown = 5\<rparr> = 5 \<and>
   (\<exists>v. female_pct \<lparr>male = 57, female = 23, unknown = 0\<rparr> = Inr (PyFloat (Fin v)) \<and>
        \<bar>v - 115 / 4\<bar> \<le> 1 / 20 + 1 / 2 ^ 44)"
proof (intro conjI)
  show "female_pct \<lparr>male = 0, female = 0, unknown = 5\<rparr> = Inr (PyInt 0)"
    using female_pct_rounded [of "\<lparr>male = 0, female = 0, unknown = 5\<rparr>"] by simp
  show "total \<lparr>male = 0, female = 0, unknown = 5\<rparr> = 5"
    using female_pct_rounded [of "\<lparr>male = 0, female = 0, unknown = 5\<rparr>"] by simp
  have "(0::int) \<le> male \<lparr>male = 57, female = 23, unknown = 0\<rparr> \<and>
        0 \<le> female \<lparr>male = 57, female = 23, unknown = 0\<rparr> \<and>
        0 < male \<lparr>male = 57, female = 23, unknown = 0\<rparr> +
            female \<lparr>male = 57, female = 23, unknown = 0\<rparr>"
    by simp
  with female_pct_rounded [of "\<lparr>male = 57, female = 23, unknown = 0\<rparr>"]
  obtain n v where
    r: "female_pct \<lparr>male = 57, female = 23, unknown = 0\<rparr> = Inr (PyFloat (Fin v))"
    and bnd: "\<bar>v - of_int (female \<lparr>male = 57, female = 23, unknown = 0\<rparr>) /
                of_int (male \<lparr>male = 57, female = 23, unknown = 0\<rparr> +
                        female \<lparr>male = 57, female = 23, unknown = 0\<rparr>) * 100\<bar>
              \<le> 1 / 20 + 1 / 2 ^ 44"
    by blast
  from bnd have "\<bar>v - 115 / 4\<bar> \<le> 1 / 20 + 1 / 2 ^ 44" by simp
  with r show "\<exists>v. female_pct \<lparr>male = 57, female = 23, unknown = 0\<rparr> = Inr (PyFloat (Fin v)) \<and>
        \<bar>v - 115 / 4\<bar> \<le> 1 / 20 + 1 / 2 ^ 44"
    by blast
qed

section \<open>Evaluating the float operations\<close>

lemma floor_log2_less:
  assumes "0 < x"
  shows "x < 2 powi (floor_log2 x + 1)"
proof -
  obtain a b where q: "quotient_of x = (a, b)" by (cases "quotient_of x")
  have b: "0 < b" using q by (rule quotient_of_denom_pos)
  have x: "x = of_int a / of_int b" using q by (rule quotient_of_div)
  have a: "0 < a"
  proof (rule ccontr)
    assume "\<not> 0 < a"
    then have "of_int a \<le> (0::rat)" by simp
    then have "x \<le> 0" unfolding x using b by (simp add: divide_le_0_iff)
    with assms show False by simp
  qed
  define e0 where "e0 = bitlen a - bitlen b"
  show ?thesis
  proof (cases "2 powi e0 \<le> x")
    case False
    then show ?thesis by (simp add: floor_log2_def q e0_def)
  next
    case True
    then have fl: "floor_log2 x = e0" by (simp add: floor_log2_def q e0_def)
    have la: "1 \<le> bitlen a" using a bitlen_eq_zero_iff[of a] bitlen_nonneg[of a] by linarith
    have lb: "1 \<le> bitlen b" using b bitlen_eq_zero_iff[of b] bitlen_nonneg[of b] by linarith
    have "a < 2 ^ nat (bitlen a)" using bitlen_bounds[OF a] by simp
    then have "(of_int a :: rat) < of_int (2 ^ nat (bitlen a))" by (simp only: of_int_less_iff)
    then have A: "(of_int a :: rat) < 2 powi bitlen a"
      using la by (simp add: power_int_nonneg_exp)
    have "(2::int) ^ nat (bitlen b - 1) \<le> b" using bitlen_bounds[OF b] by simp
    then have "(of_int (2 ^ nat (bitlen b - 1)) :: rat) \<le> of_int b" by (simp only: of_int_le_iff)
    then have B: "(2::rat) powi (bitlen b - 1) \<le> of_int b"
      using lb by (simp add: power_int_nonneg_exp)
    have "of_int a / of_int b < (2::rat) powi bitlen a / 2 powi (bitlen b - 1)"
      using a b A B by (intro frac_less) simp_all
    moreover have "(2::rat) powi bitlen a / 2 powi (bitlen b - 1) = 2 powi (e0 + 1)"
      unfolding e0_def by (subst power_int_diff[symmetric]) (simp_all add: algebra_simps)
    ultimately have "x < (2::rat) powi (e0 + 1)" unfolding x by simp
    then show ?thesis unfolding fl .
  qed
qed

lemma floor_log2_eq:
  assumes "0 < x" and lo: "2 powi e \<le> x" and hi: "x < 2 powi (e + 1)"
  shows "floor_log2 x = e"
proof -
  have "floor_log2 x < e + 1"
  proof (rule ccontr)
    assume "\<not> floor_log2 x < e + 1"
    then have "(2::rat) powi (e + 1) \<le> 2 powi floor_log2 x"
      by (intro power_int_increasing) simp_all
    with floor_log2_le[OF assms(1)] hi show False by linarith
  qed
  moreover have "e < floor_log2 x + 1"
  proof (rule ccontr)
    assume "\<not> e < floor_log2 x + 1"
    then have "(2::rat) powi (floor_log2 x + 1) \<le> 2 powi e"
      by (intro power_int_increasing) simp_all
    with floor_log2_less[OF assms(1)] lo show False by linarith
  qed
  ultimately show ?thesis by simp
qed

text \<open>Rounding of a positive value with a known binary exponent, outside the subnormals.\<close>

lemma fl_round_normal:
  assumes "0 < x" and "2 powi e \<le> x" and "x < 2 powi (e + 1)" and "- 1022 \<le> e"
    and "u = 2 powi (e - 52)"
  shows "fl_round x = of_int (round_half_even (x / u)) * u"
proof -
  have "floor_log2 \<bar>x\<bar> = e" using assms(1,2,3) by (intro floor_log2_eq) simp_all
  then have "ulp_exp x = e - 52" using assms(4) by (simp add: ulp_exp_def)
  then show ?thesis using assms(1,5) by (simp add: fl_round_def)
qed

text \<open>Rounding a fraction to the nearest integer by integer division.\<close>

lemma round_half_even_eval:
  assumes "x = of_int a / of_int b" and "0 < b"
  shows "round_half_even x =
     (if 2 * (a mod b) < b then a div b
      else if b < 2 * (a mod b) then a div b + 1
      else if even (a div b) then a div b else a div b + 1)"
proof -
  have fl: "\<lfloor>x\<rfloor> = a div b"
    unfolding assms(1) by (simp add: floor_divide_of_int_eq)
  have "of_int a = (of_int (a div b) * of_int b + of_int (a mod b) :: rat)"
    by (simp flip: of_int_mult of_int_add)
  then have d: "x - of_int (a div b) = of_int (a mod b) / of_int b"
    unfolding assms(1) using assms(2) by (simp add: field_simps)
  have lt: "of_int (a mod b) / (of_int b :: rat) < 1 / 2 \<longleftrightarrow> 2 * (a mod b) < b"
  proof -
    have "of_int (a mod b) / (of_int b :: rat) < 1 / 2 \<longleftrightarrow>
            (of_int (2 * (a mod b)) :: rat) < of_int b"
      using assms(2) by (simp add: field_simps)
    then show ?thesis by (simp only: of_int_less_iff)
  qed
  have gt: "1 / 2 < of_int (a mod b) / (of_int b :: rat) \<longleftrightarrow> b < 2 * (a mod b)"
  proof -
    have "1 / 2 < of_int (a mod b) / (of_int b :: rat) \<longleftrightarrow>
            (of_int b :: rat) < of_int (2 * (a mod b))"
      using assms(2) by (simp add: field_simps)
    then show ?thesis by (simp only: of_int_less_iff)
  qed
  show ?thesis
    unfolding round_half_even_def Let_def fl d lt gt ..
qed

lemma quot_2_1: "fl_round (1 / 3) = 6004799503160661 / 18014398509481984"
proof -
  have r: "round_half_even (18014398509481984 / 3) = 6004799503160661"
    by (subst round_half_even_eval[where a = 18014398509481984 and b = 3]) simp_all
  show ?thesis
    by (subst fl_round_normal[where e = "- 2" and u = "1 / 2 ^ 54"])
      (simp_all add: r power_int_minus_divide)
qed

lemma prod_2_1: "fl_round (150119987579016525 / 4503599627370496) = 2345624805922133 / 70368744177664"
proof -
  have r: "round_half_even (150119987579016525 / 32) = 4691249611844266"
    by (subst round_half_even_eval[where a = 150119987579016525 and b = 32]) simp_all
  show ?thesis
    by (subst fl_round_normal[where e = "5" and u = "1 / 2 ^ 47"])
      (simp_all add: r power_int_minus_divide)
qed

lemma tenths_2_1: "round_half_even (11728124029610665 / 35184372088832) = 333"
  by (subst round_half_even_eval[where a = 11728124029610665 and b = 35184372088832]) simp_all

lemma back_2_1: "fl_round (333 / 10) = 2343279181116211 / 70368744177664"
proof -
  have r: "round_half_even (23432791811162112 / 5) = 4686558362232422"
    by (subst round_half_even_eval[where a = 23432791811162112 and b = 5]) simp_all
  show ?thesis
    by (subst fl_round_normal[where e = "5" and u = "1 / 2 ^ 47"])
      (simp_all add: r power_int_minus_divide)
qed

lemma quot_57_23: "fl_round (23 / 80) = 2589569785738035 / 9007199254740992"
proof -
  have r: "round_half_even (25895697857380352 / 5) = 5179139571476070"
    by (subst round_half_even_eval[where a = 25895697857380352 and b = 5]) simp_all
  show ?thesis
    by (subst fl_round_normal[where e = "- 2" and u = "1 / 2 ^ 54"])
      (simp_all add: r power_int_minus_divide)
qed

lemma prod_57_23: "fl_round (64739244643450875 / 2251799813685248) = 8092405580431359 / 281474976710656"
proof -
  have r: "round_half_even (64739244643450875 / 8) = 8092405580431359"
    by (subst round_half_even_eval[where a = 64739244643450875 and b = 8]) simp_all
  show ?thesis
    by (subst fl_round_normal[where e = "4" and u = "1 / 2 ^ 48"])
      (simp_all add: r power_int_minus_divide)
qed

lemma tenths_57_23: "round_half_even (40462027902156795 / 140737488355328) = 287"
  by (subst round_half_even_eval[where a = 40462027902156795 and b = 140737488355328]) simp_all

lemma back_57_23: "fl_round (287 / 10) = 8078331831595827 / 281474976710656"
proof -
  have r: "round_half_even (40391659157979136 / 5) = 8078331831595827"
    by (subst round_half_even_eval[where a = 40391659157979136 and b = 5]) simp_all
  show ?thesis
    by (subst fl_round_normal[where e = "4" and u = "1 / 2 ^ 48"])
      (simp_all add: r power_int_minus_divide)
qed

text \<open>
  The unrounded formula of the claim is not what the code returns. For two men and one
  woman the code gives the double 33.3; the formula gives 100/3 in exact arithmetic and
  the double 33.33333333333333 in floating point. For 57 men and 23 women the exact
  percentage is 28.75, and the code gives the double 28.7.
\<close>

theorem female_pct_counterexample:
  "female_pct \<lparr>male = 2, female = 1, unknown = 0\<rparr> =
     Inr (PyFloat (Fin (2343279181116211 / 70368744177664))) \<and>
   spec_female_pct \<lparr>male = 2, female = 1, unknown = 0\<rparr> = 100 / 3 \<and>
   spec_female_pct_float \<lparr>male = 2, female = 1, unknown = 0\<rparr> =
     Inr (PyFloat (Fin (2345624805922133 / 70368744177664))) \<and>
   female_pct \<lparr>male = 2, female = 1, unknown = 0\<rparr> \<noteq>
     spec_female_pct_float \<lparr>male = 2, female = 1, unknown = 0\<rparr> \<and>
   female_pct \<lparr>male = 57, female = 23, unknown = 0\<rparr> =
     Inr (PyFloat (Fin (8078331831595827 / 281474976710656))) \<and>
   spec_female_pct \<lparr>male = 57, female = 23, unknown = 0\<rparr> = 115 / 4"
proof -
  have 1: "female_pct \<lparr>male = 2, female = 1, unknown = 0\<rparr> =
     Inr (PyFloat (Fin (2343279181116211 / 70368744177664)))"
    by (simp add: female_pct_def int_truediv_def float_mul_int_def float_round1_def
        quot_2_1 prod_2_1 tenths_2_1 back_2_1)
  have 2: "spec_female_pct \<lparr>male = 2, female = 1, unknown = 0\<rparr> = 100 / 3"
    by (simp add: spec_female_pct_def)
  have 3: "spec_female_pct_float \<lparr>male = 2, female = 1, unknown = 0\<rparr> =
     Inr (PyFloat (Fin (2345624805922133 / 70368744177664)))"
    by (simp add: spec_female_pct_float_def int_truediv_def float_mul_int_def
        quot_2_1 prod_2_1)
  have 4: "female_pct \<lparr>male = 2, female = 1, unknown = 0\<rparr> \<noteq>
     spec_female_pct_float \<lparr>male = 2, female = 1, unknown = 0\<rparr>"
    unfolding 1 3 by simp
  have 5: "female_pct \<lparr>male = 57, female = 23, unknown = 0\<rparr> =
     Inr (PyFloat (Fin (8078331831595827 / 281474976710656)))"
    by (simp add: female_pct_def int_truediv_def float_mul_int_def float_round1_def
        quot_57_23 prod_57_23 tenths_57_23 back_57_23)
  have 6: "spec_female_pct \<lparr>male = 57, female = 23, unknown = 0\<rparr> = 115 / 4"
    by (simp add: spec_female_pct_def)
  from 1 2 3 4 5 6 show ?thesis by blast
qed


section \<open>Aggregation totals of the collector\<close>

lemma total_bump: "total (bump g b) = total b + 1"
  by (simp add: bump_def total_def)

lemma bump_counters:
  "(male (bump g b), female (bump g b), unknown (bump g b)) =
     (if g = ''M'' then (male b + 1, female b, unknown b)
      else if g = ''F'' then (male b, female b + 1, unknown b)
      else (male b, female b, unknown b + 1))"
  by (simp add: bump_def)

lemma tier_cases:
  "t = 1 \<or> t = 2 \<or> t = 3 \<or> t = 4 \<or> t = 5 \<or> t = 6 \<or> (t \<noteq> 1 \<and> t \<noteq> 2 \<and> t \<noteq> 3 \<and> t \<noteq> 4 \<and> t \<noteq> 5 \<and> t \<noteq> (6::nat))"
  by blast

lemma tier_map_update_counts:
  "tier_map (update_counts t g res) u =
     (if u = t then map_option (bump g) (tier_map res t) else tier_map res u)"
  using tier_cases[of t]
  by (elim disjE) (simp_all add: tier_map_def update_counts_def)

lemma analyzed_update_counts:
  "total_profiles_analyzed (update_counts t g res) = total_profiles_analyzed res"
  by (simp add: update_counts_def)

lemma bucket_sum_update_counts:
  "bucket_sum (update_counts t g res) =
     bucket_sum res + (if t = 0 \<or> 6 < t then 0 else 1)"
proof -
  have "t = 0 \<or> 6 < t \<or> t = 1 \<or> t = 2 \<or> t = 3 \<or> t = 4 \<or> t = 5 \<or> t = 6" by arith
  then show ?thesis
    by (elim disjE) (auto simp: update_counts_def bucket_sum_def total_bump)
qed

lemma bucket_sum_analyzed_update:
  "bucket_sum (res\<lparr>total_profiles_analyzed := n\<rparr>) = bucket_sum res"
  by (simp add: bucket_sum_def)

lemma tier_map_analyzed_update:
  "tier_map (res\<lparr>total_profiles_analyzed := n\<rparr>) = tier_map res"
  by (simp add: tier_map_def)

lemma card_tier_range: "card_tier c \<le> 6"
  by (simp add: card_tier_def classify_title_range split: option.split)

lemma process_card_skip: "\<not> card_ok c \<Longrightarrow> process_card res c = res"
  by (auto simp: card_ok_def process_card_def split: option.split)

lemma process_card_ok:
  "card_ok c \<Longrightarrow>
     process_card res c =
       (update_counts (card_tier c) (card_gender c) res)
         \<lparr>total_profiles_analyzed := total_profiles_analyzed res + 1\<rparr>"
  by (auto simp: card_ok_def process_card_def card_tier_def card_gender_def Let_def
      analyzed_update_counts)

lemma process_card_analyzed:
  "total_profiles_analyzed (process_card res c) =
     total_profiles_analyzed res + (if card_ok c then 1 else 0)"
  by (cases "card_ok c") (simp_all add: process_card_skip process_card_ok)

lemma process_card_bucket_sum:
  "bucket_sum (process_card res c) =
     bucket_sum res + (if card_ok c \<and> card_tier c \<noteq> 0 then 1 else 0)"
proof (cases "card_ok c")
  case False
  then show ?thesis by (simp add: process_card_skip)
next
  case True
  have "\<not> 6 < card_tier c" using card_tier_range[of c] by simp
  with True show ?thesis
    by (simp add: process_card_ok bucket_sum_analyzed_update bucket_sum_update_counts)
qed

lemma process_cards_analyzed:
  "total_profiles_analyzed (process_cards res cs) =
     total_profiles_analyzed res + int (length (filter card_ok cs))"
  by (induction cs arbitrary: res) (simp_all add: process_card_analyzed)

lemma process_cards_bucket_sum:
  "bucket_sum (process_cards res cs) =
     bucket_sum res + int (length (filter (\<lambda>c. card_ok c \<and> card_tier c \<noteq> 0) cs))"
  by (induction cs arbitrary: res) (simp_all add: process_card_bucket_sum)

lemma classified_count:
  "int (length (filter (\<lambda>c. card_ok c \<and> card_tier c \<noteq> 0) cs)) =
     int (length (filter card_ok cs)) -
     int (length (filter (\<lambda>c. card_ok c \<and> card_tier c = 0) cs))"
  by (induction cs) auto

text \<open>
  C2 (as the code has it). Let N be the number of cards of a batch that are read without
  an exception and M the number of those that get tier 0. After the batch the sum over
  the six buckets of male + female + unknown has grown by N - M, whereas
  \<open>total_profiles_analyzed\<close> has grown by N: an unclassifiable profile is counted as
  analyzed. A card that is read changes only the bucket of its tier, by one increment of
  exactly one of the three counters, the one its estimated gender selects; a card of
  tier 0 changes no bucket.
\<close>

theorem aggregation_totals:
  "total_profiles_analyzed (process_cards res cs) =
     total_profiles_analyzed res + int (length (filter card_ok cs)) \<and>
   bucket_sum (process_cards res cs) =
     bucket_sum res + (int (length (filter card_ok cs)) -
                       int (length (filter (\<lambda>c. card_ok c \<and> card_tier c = 0) cs))) \<and>
   (card_ok c \<longrightarrow>
      tier_map (process_card res c) u =
        (if u = card_tier c then map_option (bump (card_gender c)) (tier_map res u)
         else tier_map res u)) \<and>
   (male (bump g b), female (bump g b), unknown (bump g b)) =
     (if g = ''M'' then (male b + 1, female b, unknown b)
      else if g = ''F'' then (male b, female b + 1, unknown b)
      else (male b, female b, unknown b + 1))"
proof (intro conjI impI)
  show "total_profiles_analyzed (process_cards res cs) =
     total_profiles_analyzed res + int (length (filter card_ok cs))"
    by (rule process_cards_analyzed)
  show "bucket_sum (process_cards res cs) =
     bucket_sum res + (int (length (filter card_ok cs)) -
                       int (length (filter (\<lambda>c. card_ok c \<and> card_tier c = 0) cs)))"
    unfolding process_cards_bucket_sum classified_count ..
  show "tier_map (process_card res c) u =
        (if u = card_tier c then map_option (bump (card_gender c)) (tier_map res u)
         else tier_map res u)" if "card_ok c"
    using that by (simp add: process_card_ok tier_map_analyzed_update tier_map_update_counts)
  show "(male (bump g b), female (bump g b), unknown (bump g b)) =
     (if g = ''M'' then (male b + 1, female b, unknown b)
      else if g = ''F'' then (male b, female b + 1, unknown b)
      else (male b, female b, unknown b + 1))"
    by (rule bump_counters)
qed

theorem aggregation_totals_witness:
  "total_profiles_analyzed (process_cards (new_result ''Acme'' ''2024-01-01'')
     [\<lparr>name_text = Some ''Priya Sharma'', title_text = Some ''Software Engineer''\<rparr>,
      \<lparr>name_text = None, title_text = Some ''CEO''\<rparr>,
      \<lparr>name_text = Some ''Rahul Verma'', title_text = Some ''CEO''\<rparr>,
      \<lparr>name_text = Some ''Amit Kumar'', title_text = Some ''Xyz Unknown Role''\<rparr>]) = 3 \<and>
   bucket_sum (process_cards (new_result ''Acme'' ''2024-01-01'')
     [\<lparr>name_text = Some ''Priya Sharma'', title_text = Some ''Software Engineer''\<rparr>,
      \<lparr>name_text = None, title_text = Some ''CEO''\<rparr>,
      \<lparr>name_text = Some ''Rahul Verma'', title_text = Some ''CEO''\<rparr>,
      \<lparr>name_text = Some ''Amit Kumar'', title_text = Some ''Xyz Unknown Role''\<rparr>]) = 2 \<and>
   tier_map (process_card (new_result ''Acme'' ''2024-01-01'')
      \<lparr>name_text = Some ''Rahul Verma'', title_text = Some ''CEO''\<rparr>) 2 =
     Some \<lparr>male = 1, female = 0, unknown = 0\<rparr>"
proof (intro conjI)
  let ?res = "new_result ''Acme'' ''2024-01-01''"
  let ?c3 = "\<lparr>name_text = Some ''Rahul Verma'', title_text = Some ''CEO''\<rparr>"
  let ?cs = "[\<lparr>name_text = Some ''Priya Sharma'', title_text = Some ''Software Engineer''\<rparr>,
      \<lparr>name_text = None, title_text = Some ''CEO''\<rparr>, ?c3,
      \<lparr>name_text = Some ''Amit Kumar'', title_text = Some ''Xyz Unknown Role''\<rparr>]"
  have n: "int (length (filter card_ok ?cs)) = 3" by code_simp
  have m: "int (length (filter (\<lambda>c. card_ok c \<and> card_tier c = 0) ?cs)) = 1" by code_simp
  have t0: "total_profiles_analyzed ?res = 0" by (simp add: new_result_def)
  have b0: "bucket_sum ?res = 0" by (simp add: new_result_def bucket_sum_def total_def empty_count_def)
  show "total_profiles_analyzed (process_cards ?res ?cs) = 3"
    using aggregation_totals [of ?res ?cs ?c3 2 "''M''" empty_count, THEN conjunct1] n t0
    by simp
  show "bucket_sum (process_cards ?res ?cs) = 2"
    using aggregation_totals
      [of ?res ?cs ?c3 2 "''M''" empty_count, THEN conjunct2, THEN conjunct1] n m b0
    by simp
  have ok: "card_ok ?c3" by code_simp
  have ct: "card_tier ?c3 = 2" by code_simp
  have cg: "card_gender ?c3 = ''M''" by code_simp
  have tm: "tier_map ?res 2 = Some empty_count" by (simp add: tier_map_def new_result_def)
  have bm: "bump ''M'' empty_count = \<lparr>male = 1, female = 0, unknown = 0\<rparr>"
    by (simp add: bump_def empty_count_def)
  have "tier_map (process_card ?res ?c3) 2 =
        (if 2 = card_tier ?c3 then map_option (bump (card_gender ?c3)) (tier_map ?res 2)
         else tier_map ?res 2)"
    using aggregation_totals [of ?res ?cs ?c3 2 "''M''" empty_count] ok by blast
  then show "tier_map (process_card ?res ?c3) 2 = Some \<lparr>male = 1, female = 0, unknown = 0\<rparr>"
    by (simp add: ct cg tm bm)
qed

text \<open>
  The claim's count fails on a single unclassifiable profile: N = 1, M = 1, so N - M = 0
  and the buckets stay empty, but \<open>total_profiles_analyzed\<close> is 1.
\<close>

theorem total_processed_counterexample:
  "card_ok \<lparr>name_text = Some ''Amit Kumar'', title_text = Some ''Xyz Unknown Role''\<rparr> \<and>
   card_tier \<lparr>name_text = Some ''Amit Kumar'', title_text = Some ''Xyz Unknown Role''\<rparr> = 0 \<and>
   bucket_sum (process_cards (new_result ''Acme'' ''2024-01-01'')
     [\<lparr>name_text = Some ''Amit Kumar'', title_text = Some ''Xyz Unknown Role''\<rparr>]) = 0 \<and>
   total_profiles_analyzed (process_cards (new_result ''Acme'' ''2024-01-01'')
     [\<lparr>name_text = Some ''Amit Kumar'', title_text = Some ''Xyz Unknown Role''\<rparr>]) = 1"
proof -
  let ?c = "\<lparr>name_text = Some ''Amit Kumar'', title_text = Some ''Xyz Unknown Role''\<rparr>"
  let ?res = "new_result ''Acme'' ''2024-01-01''"
  have 1: "card_ok ?c" by code_simp
  have 2: "card_tier ?c = 0" by code_simp
  have 3: "bucket_sum (process_cards ?res [?c]) = 0"
    using 1 2 by (simp add: process_card_ok update_counts_def bucket_sum_def new_result_def
        total_def empty_count_def)
  have 4: "total_profiles_analyzed (process_cards ?res [?c]) = 1"
    using 1 by (simp add: process_card_ok new_result_def)
  from 1 2 3 4 show ?thesis by blast
qed


section \<open>Missing fields and unreadable records\<close>

lemma row_get_absent: "r c = None \<Longrightarrow> row_get (r(c \<mapsto> Text [])) = row_get r"
  by (rule ext) (simp add: row_get_def)

lemma field_of_absent:
  "r c = None \<Longrightarrow> field_of cfg (r(c \<mapsto> Text [])) k = field_of cfg r k"
  by (simp add: field_of_def row_get_absent split: option.split)

text \<open>
  A column that the frame does not have at all is read as the empty string: the row is
  normalized as the same row with an empty text in that column.
\<close>

lemma absent_column_reads_empty:
  assumes "r c = None"
  shows "normalize_row cfg (r(c \<mapsto> Text [])) = normalize_row cfg r"
proof -
  have e: "row_get (r(c \<mapsto> Text [])) = row_get r"
    using assms by (rule row_get_absent)
  have f: "field_of cfg (r(c \<mapsto> Text [])) k = field_of cfg r k" for k
    using assms by (rule field_of_absent)
  show ?thesis unfolding normalize_row_def e f ..
qed

lemma fetch_loop_append:
  "fetch_loop cfg (xs @ ys) = fetch_loop cfg xs @ fetch_loop cfg ys"
  by (induction xs) (simp_all split: option.split)

text \<open>Every row of a batch is normalized on its own.\<close>

lemma rows_normalized_independently:
  "fetch_loop cfg (rs1 @ r # rs2) =
     fetch_loop cfg rs1 @ (case normalize_row cfg r of None \<Rightarrow> [] | Some e \<Rightarrow> [e]) @
     fetch_loop cfg rs2"
  by (simp add: fetch_loop_append split: option.split)

lemma process_cards_append:
  "process_cards res (xs @ ys) = process_cards (process_cards res xs) ys"
  by (induction xs arbitrary: res) simp_all

text \<open>
  A card whose elements cannot be read is skipped: the result is that of the batch
  without the card.
\<close>

lemma unreadable_card_skipped:
  "\<not> card_ok bad \<Longrightarrow> process_cards res (cs1 @ bad # cs2) = process_cards res (cs1 @ cs2)"
  by (simp add: process_cards_append process_card_skip)

text \<open>
  C9. The claim asks that a row with a missing mapped field be processed as if the field
  were the empty string. \<open>fetch_employees\<close> reads a field with
  \<open>str(row.get(col, ""))\<close>, and the default \<open>""\<close> applies only to a column that the
  whole frame lacks. A field that is missing in one row is the cell NaN, which \<open>str\<close>
  turns into "nan". So a row with the title "Manager" and no department gets the
  department "nan", where the same row with an empty department gets the department "".
  With a rule table that holds the keyword "an", a row without a title is classified as
  tier 1 through the text "nan", where a row with an empty title is dropped.
\<close>

theorem missing_cell_reads_nan:
  "normalize_row (default_config [''title'' \<mapsto> ''title'', ''department'' \<mapsto> ''dept''])
     [''title'' \<mapsto> Text ''Manager'', ''dept'' \<mapsto> NaN] =
     Some \<lparr>gender = ''O'', tier = 4, is_active = True, tenure_band = None,
           department_type = Some ''nan''\<rparr> \<and>
   normalize_row (default_config [''title'' \<mapsto> ''title'', ''department'' \<mapsto> ''dept''])
     [''title'' \<mapsto> Text ''Manager'', ''dept'' \<mapsto> Text ''''] =
     Some \<lparr>gender = ''O'', tier = 4, is_active = True, tenure_band = None,
           department_type = Some ''''\<rparr> \<and>
   normalize_row
     \<lparr>tier_mapping_of = single_rule ''an'', field_mapping = [''title'' \<mapsto> ''title''],
      gender_values_of = default_gender_values, active_values = default_active_values\<rparr>
     [''title'' \<mapsto> NaN] =
     Some \<lparr>gender = ''O'', tier = 1, is_active = True, tenure_band = None,
           department_type = None\<rparr> \<and>
   normalize_row
     \<lparr>tier_mapping_of = single_rule ''an'', field_mapping = [''title'' \<mapsto> ''title''],
      gender_values_of = default_gender_values, active_values = default_active_values\<rparr>
     [''title'' \<mapsto> Text ''''] = None"
proof (intro conjI)
  show "normalize_row (default_config [''title'' \<mapsto> ''title'', ''department'' \<mapsto> ''dept''])
     [''title'' \<mapsto> Text ''Manager'', ''dept'' \<mapsto> NaN] =
     Some \<lparr>gender = ''O'', tier = 4, is_active = True, tenure_band = None,
           department_type = Some ''nan''\<rparr>"
    by code_simp
  show "normalize_row (default_config [''title'' \<mapsto> ''title'', ''department'' \<mapsto> ''dept''])
     [''title'' \<mapsto> Text ''Manager'', ''dept'' \<mapsto> Text ''''] =
     Some \<lparr>gender = ''O'', tier = 4, is_active = True, tenure_band = None,
           department_type = Some ''''\<rparr>"
    by code_simp
  show "normalize_row
     \<lparr>tier_mapping_of = single_rule ''an'', field_mapping = [''title'' \<mapsto> ''title''],
      gender_values_of = default_gender_values, active_values = default_active_values\<rparr>
     [''title'' \<mapsto> NaN] =
     Some \<lparr>gender = ''O'', tier = 1, is_active = True, tenure_band = None,
           department_type = None\<rparr>"
    by code_simp
  show "normalize_row
     \<lparr>tier_mapping_of = single_rule ''an'', field_mapping = [''title'' \<mapsto> ''title''],
      gender_values_of = default_gender_values, active_values = default_active_values\<rparr>
     [''title'' \<mapsto> Text ''''] = None"
    by code_simp
qed

end
